theory Spec2Isabelle
  imports Complex_Main "HOL-Library.Sublist" "HOL-Library.Word"
begin

section \<open>Python values used by \<open>sol_inspect.py\<close>\<close>

text \<open>
  Exceptions are values. Each constructor is one Python exception class that the program
  raises or that a library call made by the program raises; the argument is the message,
  so that \<open>str(exc)\<close> is the message. \<open>TransportError\<close> stands for whatever
  \<open>requests.post\<close> itself raises (connection errors, timeouts).
\<close>

datatype py_exn =
    RPCError string
  | ValueError string
  | TypeError string
  | AttributeError string
  | OverflowError string
  | OSError string
  | TransportError string

fun exn_str :: "py_exn \<Rightarrow> string" where
  "exn_str (RPCError m) = m"
| "exn_str (ValueError m) = m"
| "exn_str (TypeError m) = m"
| "exn_str (AttributeError m) = m"
| "exn_str (OverflowError m) = m"
| "exn_str (OSError m) = m"
| "exn_str (TransportError m) = m"

text \<open>
  A Python float as \<open>response.json()\<close> can produce it: a finite value, kept as the rational
  it denotes (a non-zero one, or positive zero), negative zero, an infinity (a literal such
  as \<open>1e999\<close> or \<open>Infinity\<close>) or NaN.
\<close>

datatype pyfloat = Finite rat | NegZero | PosInf | NegInf | NaN

text \<open>
  The values that \<open>response.json()\<close> produces. A JSON object is a Python dict, kept as an
  association list in insertion order. A number with a fraction or an exponent is a Python
  float. A string is a sequence of characters with code points below 256.
\<close>

datatype json =
    JNull
  | JBool bool
  | JInt int
  | JFloat pyfloat
  | JStr string
  | JArr "json list"
  | JObj "(string \<times> json) list"

text \<open>Python truthiness, as used by \<open>if x:\<close> and by \<open>and\<close>.\<close>

fun float_truthy :: "pyfloat \<Rightarrow> bool" where
  "float_truthy (Finite q) = (q \<noteq> 0)"
| "float_truthy NegZero = False"
| "float_truthy PosInf = True"
| "float_truthy NegInf = True"
| "float_truthy NaN = True"

fun truthy :: "json \<Rightarrow> bool" where
  "truthy JNull = False"
| "truthy (JBool b) = b"
| "truthy (JInt n) = (n \<noteq> 0)"
| "truthy (JFloat x) = float_truthy x"
| "truthy (JStr s) = (s \<noteq> [])"
| "truthy (JArr xs) = (xs \<noteq> [])"
| "truthy (JObj kvs) = (kvs \<noteq> [])"

fun type_name :: "json \<Rightarrow> string" where
  "type_name JNull = ''NoneType''"
| "type_name (JBool b) = ''bool''"
| "type_name (JInt n) = ''int''"
| "type_name (JFloat q) = ''float''"
| "type_name (JStr s) = ''str''"
| "type_name (JArr xs) = ''list''"
| "type_name (JObj kvs) = ''dict''"

text \<open>
  \<open>x.get(key, default)\<close>: only a dict has the method; on every other value the attribute
  lookup raises \<open>AttributeError\<close>.
\<close>

fun py_get :: "json \<Rightarrow> string \<Rightarrow> json \<Rightarrow> py_exn + json" where
  "py_get (JObj kvs) k d = Inr (case map_of kvs k of None \<Rightarrow> d | Some v \<Rightarrow> v)"
| "py_get x k d =
     Inl (AttributeError ([CHR 0x27] @ type_name x @ [CHR 0x27] @ '' object has no attribute '' @
                          [CHR 0x27] @ ''get'' @ [CHR 0x27]))"

subsection \<open>\<open>str\<close> and \<open>repr\<close>\<close>

fun nat_digits :: "nat \<Rightarrow> string" where
  "nat_digits n =
     (if n < 10 then [''0123456789'' ! n]
      else nat_digits (n div 10) @ [''0123456789'' ! (n mod 10)])"

declare nat_digits.simps [simp del]

definition str_int :: "int \<Rightarrow> string" where
  "str_int i = (if i < 0 then CHR ''-'' # nat_digits (nat (- i)) else nat_digits (nat i))"

definition printable :: "char \<Rightarrow> bool" where
  "printable c = (let n = (of_char c :: nat) in (32 \<le> n \<and> n \<le> 126) \<or> (161 \<le> n \<and> n \<noteq> 173))"

definition hex2 :: "char \<Rightarrow> string" where
  "hex2 c = (let n = (of_char c :: nat) in
     [''0123456789abcdef'' ! (n div 16), ''0123456789abcdef'' ! (n mod 16)])"

definition repr_char :: "char \<Rightarrow> char \<Rightarrow> string" where
  "repr_char q c =
     (if c = CHR 0x5C then [CHR 0x5C, CHR 0x5C]
      else if c = q then [CHR 0x5C, q]
      else if c = CHR 0x0A then [CHR 0x5C, CHR ''n'']
      else if c = CHR 0x0D then [CHR 0x5C, CHR ''r'']
      else if c = CHR 0x09 then [CHR 0x5C, CHR ''t'']
      else if \<not> printable c then [CHR 0x5C, CHR ''x''] @ hex2 c
      else [c])"

definition repr_str :: "string \<Rightarrow> string" where
  "repr_str s =
     (let q = (if CHR 0x27 \<in> set s \<and> CHR 0x22 \<notin> set s then CHR 0x22 else CHR 0x27)
      in [q] @ concat (map (repr_char q) s) @ [q])"

fun join :: "string \<Rightarrow> string list \<Rightarrow> string" where
  "join sep [] = []"
| "join sep [x] = x"
| "join sep (x # y # ys) = x @ sep @ join sep (y # ys)"

text \<open>
  \<open>repr\<close> of a value. The text of a finite float (\<open>float.__repr__\<close>, the shortest decimal
  that reads back as the same float) is a parameter \<open>fr\<close> of the model.
\<close>

fun float_repr :: "(rat \<Rightarrow> string) \<Rightarrow> pyfloat \<Rightarrow> string" where
  "float_repr fr (Finite q) = fr q"
| "float_repr fr NegZero = ''-0.0''"
| "float_repr fr PosInf = ''inf''"
| "float_repr fr NegInf = ''-inf''"
| "float_repr fr NaN = ''nan''"

fun py_repr :: "(rat \<Rightarrow> string) \<Rightarrow> json \<Rightarrow> string" where
  "py_repr fr JNull = ''None''"
| "py_repr fr (JBool b) = (if b then ''True'' else ''False'')"
| "py_repr fr (JInt n) = str_int n"
| "py_repr fr (JFloat x) = float_repr fr x"
| "py_repr fr (JStr s) = repr_str s"
| "py_repr fr (JArr xs) = ''['' @ join '', '' (map (py_repr fr) xs) @ '']''"
| "py_repr fr (JObj kvs) =
     ''{'' @ join '', '' (map (\<lambda>p. repr_str (fst p) @ '': '' @ py_repr fr (snd p)) kvs) @ ''}''"

definition py_str :: "(rat \<Rightarrow> string) \<Rightarrow> json \<Rightarrow> string" where
  "py_str fr x = (case x of JStr s \<Rightarrow> s | _ \<Rightarrow> py_repr fr x)"

section \<open>The transport and \<open>RPCClient.request\<close>\<close>

text \<open>
  What \<open>requests.post\<close> gives back: it raises, or it returns a response with a status code,
  a body text and the outcome of \<open>response.json()\<close> (\<open>None\<close> when the body does not parse and
  \<open>json()\<close> raises \<open>ValueError\<close>).
\<close>

record http_response =
  status_code :: int
  resp_text :: string
  json_body :: "json option"

datatype post_result = Raises py_exn | Responds http_response

text \<open>
  The network is a function from the number of POSTs made before, the endpoint, the payload
  and the timeout to what the POST does. The events of a call, in order, are its trace.
\<close>

type_synonym world = "nat \<Rightarrow> string \<Rightarrow> json \<Rightarrow> rat \<Rightarrow> post_result"

datatype event = Post string json rat | Sleep rat

fun is_post :: "event \<Rightarrow> bool" where
  "is_post (Post ep p t) = True"
| "is_post (Sleep d) = False"

definition n_posts :: "event list \<Rightarrow> nat" where
  "n_posts tr = length (filter is_post tr)"

fun sleeps :: "event list \<Rightarrow> rat list" where
  "sleeps [] = []"
| "sleeps (Sleep d # tr) = d # sleeps tr"
| "sleeps (Post ep p t # tr) = sleeps tr"

record RPCClient =
  endpoints :: "string list"
  timeout :: rat

definition backoffs :: "rat list" where
  "backoffs = [1 / 2, 1, 2]"

text \<open>The body of the \<open>try\<close> block of \<open>request\<close> (lines 135 to 154): one transport attempt.\<close>

definition request_try :: "(rat \<Rightarrow> string) \<Rightarrow> world \<Rightarrow> nat \<Rightarrow> string \<Rightarrow> json \<Rightarrow> rat \<Rightarrow> py_exn + json" where
  "request_try fr w k endpoint payload tmo =
     (case w k endpoint payload tmo of
        Raises exc \<Rightarrow> Inl exc
      | Responds response \<Rightarrow>
          if status_code response \<noteq> 200 then
            Inl (RPCError (''HTTP '' @ str_int (status_code response) @ '' from '' @ endpoint @
                           '': '' @ resp_text response))
          else
            (case json_body response of
               None \<Rightarrow>
                 Inl (RPCError (''Invalid JSON from '' @ endpoint @ '': '' @ resp_text response))
             | Some data \<Rightarrow>
                 (case py_get data ''error'' JNull of
                    Inl exc \<Rightarrow> Inl exc
                  | Inr err \<Rightarrow>
                      if truthy err then
                        Inl (RPCError (''RPC error from '' @ endpoint @ '': '' @ py_str fr err))
                      else
                        (case data of
                           JObj kvs \<Rightarrow>
                             (case map_of kvs ''result'' of
                                None \<Rightarrow>
                                  Inl (RPCError (''Malformed response from '' @ endpoint @ '': '' @
                                                 py_str fr data))
                              | Some result \<Rightarrow> Inr result)
                         | _ \<Rightarrow> Inl (TypeError ''argument is not iterable'')))))"

text \<open>
  The inner loop \<open>for attempt in range(len(backoffs) + 1)\<close>. The state is \<open>last_error\<close> and
  the trace. The result is \<open>Some\<close> when the loop leaves through \<open>return\<close>.
\<close>

fun attempt_loop ::
  "(rat \<Rightarrow> string) \<Rightarrow> world \<Rightarrow> string \<Rightarrow> json \<Rightarrow> rat \<Rightarrow> nat list \<Rightarrow>
   py_exn option \<times> event list \<Rightarrow> json option \<times> py_exn option \<times> event list" where
  "attempt_loop fr w endpoint payload tmo [] (last_error, tr) = (None, last_error, tr)"
| "attempt_loop fr w endpoint payload tmo (attempt # rest) (last_error, tr) =
     (case request_try fr w (n_posts tr) endpoint payload tmo of
        Inr result \<Rightarrow> (Some result, last_error, tr @ [Post endpoint payload tmo])
      | Inl exc \<Rightarrow>
          attempt_loop fr w endpoint payload tmo rest
            (Some exc,
             tr @ [Post endpoint payload tmo] @
               (if attempt < length backoffs then [Sleep (backoffs ! attempt)] else [])))"

text \<open>The outer loop \<open>for endpoint in self.endpoints\<close>.\<close>

fun endpoint_loop ::
  "(rat \<Rightarrow> string) \<Rightarrow> world \<Rightarrow> json \<Rightarrow> rat \<Rightarrow> string list \<Rightarrow>
   py_exn option \<times> event list \<Rightarrow> json option \<times> py_exn option \<times> event list" where
  "endpoint_loop fr w payload tmo [] st = (None, st)"
| "endpoint_loop fr w payload tmo (endpoint # rest) st =
     (case attempt_loop fr w endpoint payload tmo [0..<length backoffs + 1] st of
        (Some result, st') \<Rightarrow> (Some result, st')
      | (None, st') \<Rightarrow> endpoint_loop fr w payload tmo rest st')"

definition rpc_payload :: "string \<Rightarrow> json list \<Rightarrow> json" where
  "rpc_payload method params =
     JObj [(''jsonrpc'', JStr ''2.0''), (''id'', JInt 1), (''method'', JStr method),
           (''params'', JArr params)]"

definition all_failed_msg :: "py_exn option \<Rightarrow> string" where
  "all_failed_msg last_error =
     ''All RPC endpoints failed: '' @ (case last_error of None \<Rightarrow> ''None'' | Some e \<Rightarrow> exn_str e)"

text \<open>
  \<open>RPCClient.request\<close>, started with the trace \<open>tr\<close> of what the run did before. It returns
  the result or the exception, and the extended trace.
\<close>

definition request ::
  "(rat \<Rightarrow> string) \<Rightarrow> world \<Rightarrow> RPCClient \<Rightarrow> string \<Rightarrow> json list \<Rightarrow> event list \<Rightarrow>
   (py_exn + json) \<times> event list" where
  "request fr w client method params tr =
     (case endpoint_loop fr w (rpc_payload method params) (timeout client) (endpoints client)
             (None, tr) of
        (Some result, last_error, tr') \<Rightarrow> (Inr result, tr')
      | (None, last_error, tr') \<Rightarrow> (Inl (RPCError (all_failed_msg last_error)), tr'))"



subsection \<open>The schedule of a call\<close>

text \<open>
  What a call does on one endpoint when every attempt fails: four POSTs with the three
  backoff sleeps between them, and what it does on all endpoints in turn.
\<close>

definition ep_schedule :: "string \<Rightarrow> json \<Rightarrow> rat \<Rightarrow> event list" where
  "ep_schedule ep p t =
     [Post ep p t, Sleep (1 / 2), Post ep p t, Sleep 1, Post ep p t, Sleep 2, Post ep p t]"

definition full_schedule :: "string list \<Rightarrow> json \<Rightarrow> rat \<Rightarrow> event list" where
  "full_schedule eps p t = concat (map (\<lambda>ep. ep_schedule ep p t) eps)"

lemma n_posts_append [simp]: "n_posts (xs @ ys) = n_posts xs + n_posts ys"
  by (simp add: n_posts_def)

lemma n_posts_simps [simp]:
  "n_posts [] = 0" "n_posts (Post ep p t # tr) = Suc (n_posts tr)" "n_posts (Sleep d # tr) = n_posts tr"
  by (simp_all add: n_posts_def)

lemma upt4: "[0..<length backoffs + 1] = [0, 1, 2, 3]"
  by (simp add: backoffs_def upt_rec)

lemma attempt_loop_unfold:
  "attempt_loop fr w ep p t [0..<length backoffs + 1] (le, tr) =
     (case request_try fr w (n_posts tr) ep p t of
        Inr r \<Rightarrow> (Some r, le, tr @ take 1 (ep_schedule ep p t))
      | Inl e0 \<Rightarrow>
     (case request_try fr w (n_posts tr + 1) ep p t of
        Inr r \<Rightarrow> (Some r, Some e0, tr @ take 3 (ep_schedule ep p t))
      | Inl e1 \<Rightarrow>
     (case request_try fr w (n_posts tr + 2) ep p t of
        Inr r \<Rightarrow> (Some r, Some e1, tr @ take 5 (ep_schedule ep p t))
      | Inl e2 \<Rightarrow>
     (case request_try fr w (n_posts tr + 3) ep p t of
        Inr r \<Rightarrow> (Some r, Some e2, tr @ take 7 (ep_schedule ep p t))
      | Inl e3 \<Rightarrow> (None, Some e3, tr @ ep_schedule ep p t)))))"
  by (simp add: upt4 backoffs_def ep_schedule_def numeral_eq_Suc split: sum.splits)


lemma less4_cases: "(i::nat) < 4 \<Longrightarrow> i = 0 \<or> i = 1 \<or> i = 2 \<or> i = 3"
  by arith

lemma all_less4: "(\<forall>i<4::nat. P i) = (P 0 \<and> P 1 \<and> P 2 \<and> P 3)"
  by (auto dest!: less4_cases)

lemma attempt_loop_cases:
  fixes k :: nat and ep p t
  defines "S \<equiv> ep_schedule ep p t"
  assumes k: "k = n_posts tr"
  shows
   "(\<exists>j<4. \<exists>r le'. (\<forall>i<j. isl (request_try fr w (k + i) ep p t)) \<and>
        request_try fr w (k + j) ep p t = Inr r \<and>
        attempt_loop fr w ep p t [0..<length backoffs + 1] (le, tr) =
          (Some r, le', tr @ take (2 * j + 1) S))
    \<or> (\<exists>e. (\<forall>i<4. isl (request_try fr w (k + i) ep p t)) \<and>
        request_try fr w (k + 3) ep p t = Inl e \<and>
        attempt_loop fr w ep p t [0..<length backoffs + 1] (le, tr) = (None, Some e, tr @ S))"
proof (cases "request_try fr w k ep p t")
  case (Inr r)
  then have "attempt_loop fr w ep p t [0..<length backoffs + 1] (le, tr) = (Some r, le, tr @ take (2 * 0 + 1) S)"
    by (subst attempt_loop_unfold) (simp add: k S_def)
  with Inr show ?thesis by (intro disjI1 exI[of _ 0]) auto
next
  case e0: (Inl e0)
  show ?thesis
  proof (cases "request_try fr w (k + 1) ep p t")
    case (Inr r)
    with e0 have "attempt_loop fr w ep p t [0..<length backoffs + 1] (le, tr) = (Some r, Some e0, tr @ take (2 * 1 + 1) S)"
      by (subst attempt_loop_unfold) (simp add: k S_def)
    with Inr e0 show ?thesis by (intro disjI1 exI[of _ 1]) auto
  next
    case e1: (Inl e1)
    show ?thesis
    proof (cases "request_try fr w (k + 2) ep p t")
      case (Inr r)
      with e0 e1 have "attempt_loop fr w ep p t [0..<length backoffs + 1] (le, tr) = (Some r, Some e1, tr @ take (2 * 2 + 1) S)"
        by (subst attempt_loop_unfold) (simp add: k S_def)
      moreover have "\<forall>i<2::nat. isl (request_try fr w (k + i) ep p t)"
        using e0 e1 by (auto simp: less_Suc_eq numeral_2_eq_2)
      ultimately show ?thesis using Inr by (intro disjI1 exI[of _ 2]) auto
    next
      case e2: (Inl e2)
      have f3: "\<forall>i<3::nat. isl (request_try fr w (k + i) ep p t)"
        using e0 e1 e2 by (auto simp: less_Suc_eq numeral_3_eq_3)
      show ?thesis
      proof (cases "request_try fr w (k + 3) ep p t")
        case (Inr r)
        with e0 e1 e2 have "attempt_loop fr w ep p t [0..<length backoffs + 1] (le, tr) = (Some r, Some e2, tr @ take (2 * 3 + 1) S)"
          by (subst attempt_loop_unfold) (simp add: k S_def)
        with f3 Inr show ?thesis by (intro disjI1 exI[of _ 3]) auto
      next
        case e3: (Inl e3)
        with e0 e1 e2 have "attempt_loop fr w ep p t [0..<length backoffs + 1] (le, tr) = (None, Some e3, tr @ S)"
          by (subst attempt_loop_unfold) (simp add: k S_def)
        moreover have "\<forall>i<4::nat. isl (request_try fr w (k + i) ep p t)"
          using e0 e1 e2 e3 by (simp add: all_less4)
        ultimately show ?thesis using e3 by (intro disjI2 exI[of _ e3]) auto
      qed
    qed
  qed
qed


lemma length_ep_schedule [simp]: "length (ep_schedule ep p t) = 7"
  by (simp add: ep_schedule_def)

lemma n_posts_ep_schedule [simp]: "n_posts (ep_schedule ep p t) = 4"
  by (simp add: ep_schedule_def)

lemma full_schedule_simps [simp]:
  "full_schedule [] p t = []"
  "full_schedule (ep # eps) p t = ep_schedule ep p t @ full_schedule eps p t"
  by (simp_all add: full_schedule_def)

lemma endpoint_loop_cases:
  assumes k: "k = n_posts tr"
  shows
   "(\<exists>j<4 * length eps. \<exists>r le'.
        (\<forall>i<j. isl (request_try fr w (k + i) (eps ! (i div 4)) p t)) \<and>
        request_try fr w (k + j) (eps ! (j div 4)) p t = Inr r \<and>
        endpoint_loop fr w p t eps (le, tr) =
          (Some r, le', tr @ take (7 * (j div 4) + 2 * (j mod 4) + 1) (full_schedule eps p t)))
    \<or> ((\<forall>i<4 * length eps. isl (request_try fr w (k + i) (eps ! (i div 4)) p t)) \<and>
        endpoint_loop fr w p t eps (le, tr) =
          (None,
           (if eps = [] then le
            else Some (projl (request_try fr w (k + (4 * length eps - 1)) (last eps) p t))),
           tr @ full_schedule eps p t))"
  using k
proof (induction eps arbitrary: le tr k)
  case Nil
  then show ?case by simp
next
  case (Cons ep rest)
  let ?S = "ep_schedule ep p t"
  let ?out = "\<lambda>i. request_try fr w (k + i) ((ep # rest) ! (i div 4)) p t"
  have first4: "?out i = request_try fr w (k + i) ep p t" if "i < 4" for i
    using that by simp
  from attempt_loop_cases [OF Cons.prems, of fr w ep p t le]
  consider
    (ok) j r le' where "j < 4" "\<forall>i<j. isl (request_try fr w (k + i) ep p t)"
      "request_try fr w (k + j) ep p t = Inr r"
      "attempt_loop fr w ep p t [0..<length backoffs + 1] (le, tr) = (Some r, le', tr @ take (2 * j + 1) ?S)"
  | (fail) e where "\<forall>i<4. isl (request_try fr w (k + i) ep p t)"
      "request_try fr w (k + 3) ep p t = Inl e"
      "attempt_loop fr w ep p t [0..<length backoffs + 1] (le, tr) = (None, Some e, tr @ ?S)"
    by blast
  then show ?case
  proof cases
    case ok
    have run: "endpoint_loop fr w p t (ep # rest) (le, tr) = (Some r, le', tr @ take (2 * j + 1) ?S)"
      using ok(4) by simp
    have tk: "take (7 * (j div 4) + 2 * (j mod 4) + 1) (full_schedule (ep # rest) p t) = take (2 * j + 1) ?S"
      using ok(1) by simp
    have "j < 4 * length (ep # rest)" using ok(1) by simp
    moreover have "\<forall>i<j. isl (?out i)" using ok(1,2) by simp
    moreover have "?out j = Inr r" using ok(1,3) by simp
    ultimately show ?thesis using run tk by (intro disjI1) (metis (no_types, lifting))
  next
    case fail
    have run: "endpoint_loop fr w p t (ep # rest) (le, tr) = endpoint_loop fr w p t rest (Some e, tr @ ?S)"
      using fail(3) by simp
    have k': "k + 4 = n_posts (tr @ ?S)" using Cons.prems by simp
    let ?out' = "\<lambda>i. request_try fr w (k + 4 + i) (rest ! (i div 4)) p t"
    have shift: "?out (i + 4) = ?out' i" for i
    proof -
      have "(i + 4) div 4 = Suc (i div 4)" by presburger
      moreover have "k + (i + 4) = k + 4 + i" by simp
      ultimately show ?thesis by (simp only: nth_Cons_Suc)
    qed
    from Cons.IH [OF k', of "Some e"]
    consider
      (ok') j r le' where "j < 4 * length rest" "\<forall>i<j. isl (?out' i)" "?out' j = Inr r"
        "endpoint_loop fr w p t rest (Some e, tr @ ?S) =
           (Some r, le', (tr @ ?S) @ take (7 * (j div 4) + 2 * (j mod 4) + 1) (full_schedule rest p t))"
    | (fail') "\<forall>i<4 * length rest. isl (?out' i)"
        "endpoint_loop fr w p t rest (Some e, tr @ ?S) =
           (None,
            (if rest = [] then Some e
             else Some (projl (request_try fr w (k + 4 + (4 * length rest - 1)) (last rest) p t))),
            (tr @ ?S) @ full_schedule rest p t)"
      by blast
    then show ?thesis
    proof cases
      case ok'
      let ?j = "j + 4"
      have a: "?j < 4 * length (ep # rest)" using ok'(1) by simp
      have b: "\<forall>i<?j. isl (?out i)"
      proof (intro allI impI)
        fix i assume i: "i < ?j"
        show "isl (?out i)"
        proof (cases "i < 4")
          case True
          then show ?thesis using fail(1) by simp
        next
          case False
          then have "i - 4 < j" and i4: "i = (i - 4) + 4" using i by auto
          then have "isl (?out' (i - 4))" using ok'(2) by blast
          then have "isl (?out ((i - 4) + 4))" by (simp only: shift)
          then show ?thesis using i4 by simp
        qed
      qed
      have c: "?out ?j = Inr r" using ok'(3) by (simp only: shift)
      have dm: "?j div 4 = Suc (j div 4)" "?j mod 4 = j mod 4" by presburger+
      have tk: "take (7 * (?j div 4) + 2 * (?j mod 4) + 1) (full_schedule (ep # rest) p t) =
                ?S @ take (7 * (j div 4) + 2 * (j mod 4) + 1) (full_schedule rest p t)"
        by (simp add: dm)
      have d: "endpoint_loop fr w p t (ep # rest) (le, tr) =
           (Some r, le', tr @ take (7 * (?j div 4) + 2 * (?j mod 4) + 1) (full_schedule (ep # rest) p t))"
        using run ok'(4) tk by simp
      show ?thesis using a b c d by (intro disjI1) (metis (no_types, lifting))
    next
      case fail'
      have b: "\<forall>i<4 * length (ep # rest). isl (?out i)"
      proof (intro allI impI)
        fix i assume i: "i < 4 * length (ep # rest)"
        show "isl (?out i)"
        proof (cases "i < 4")
          case True
          then show ?thesis using fail(1) by simp
        next
          case False
          then have "i - 4 < 4 * length rest" and i4: "i = (i - 4) + 4" using i by auto
          then have "isl (?out' (i - 4))" using fail'(1) by blast
          then have "isl (?out ((i - 4) + 4))" by (simp only: shift)
          then show ?thesis using i4 by simp
        qed
      qed
      have le: "(if rest = [] then Some e
             else Some (projl (request_try fr w (k + 4 + (4 * length rest - 1)) (last rest) p t)))
           = Some (projl (request_try fr w (k + (4 * length (ep # rest) - 1)) (last (ep # rest)) p t))"
      proof (cases "rest = []")
        case True
        then show ?thesis using fail(2) by simp
      next
        case False
        then have "0 < length rest" by simp
        then have "k + 4 + (4 * length rest - 1) = k + (4 * length (ep # rest) - 1)" by simp
        moreover have "last (ep # rest) = last rest" using False by simp
        ultimately show ?thesis using False by (simp only: if_False)
      qed
      have d: "endpoint_loop fr w p t (ep # rest) (le, tr) =
           (None, Some (projl (request_try fr w (k + (4 * length (ep # rest) - 1)) (last (ep # rest)) p t)),
            tr @ full_schedule (ep # rest) p t)"
        using run fail'(2) le by simp
      show ?thesis using b d by (intro disjI2) simp
    qed
  qed
qed


text \<open>
  The outcome of the \<open>j\<close>-th attempt of a call that starts after \<open>k\<close> POSTs, when all
  attempts before it failed: attempt \<open>j mod 4\<close> on endpoint \<open>j div 4\<close>.
\<close>

definition attempt_outcome ::
  "(rat \<Rightarrow> string) \<Rightarrow> world \<Rightarrow> RPCClient \<Rightarrow> string \<Rightarrow> json list \<Rightarrow> nat \<Rightarrow> nat \<Rightarrow> py_exn + json" where
  "attempt_outcome fr w client method params k j =
     request_try fr w (k + j) (endpoints client ! (j div 4)) (rpc_payload method params)
       (timeout client)"

definition request_schedule :: "RPCClient \<Rightarrow> string \<Rightarrow> json list \<Rightarrow> event list" where
  "request_schedule client method params =
     full_schedule (endpoints client) (rpc_payload method params) (timeout client)"

lemma request_cases:
  assumes k: "k = n_posts tr"
  shows
   "(\<exists>j<4 * length (endpoints c). \<exists>r.
        (\<forall>i<j. isl (attempt_outcome fr w c m ps k i)) \<and>
        attempt_outcome fr w c m ps k j = Inr r \<and>
        request fr w c m ps tr =
          (Inr r, tr @ take (7 * (j div 4) + 2 * (j mod 4) + 1) (request_schedule c m ps)))
    \<or> ((\<forall>i<4 * length (endpoints c). isl (attempt_outcome fr w c m ps k i)) \<and>
        request fr w c m ps tr =
          (Inl (RPCError (all_failed_msg
             (if endpoints c = [] then None
              else Some (projl (attempt_outcome fr w c m ps k (4 * length (endpoints c) - 1)))))),
           tr @ request_schedule c m ps))"
proof -
  let ?eps = "endpoints c" and ?p = "rpc_payload m ps" and ?t = "timeout c"
  have lst: "?eps ! ((4 * length ?eps - 1) div 4) = last ?eps" if "?eps \<noteq> []"
  proof -
    from that have "0 < length ?eps" by simp
    then have "(4 * length ?eps - 1) div 4 = length ?eps - 1" by presburger
    then show ?thesis using that by (simp add: last_conv_nth)
  qed
  from endpoint_loop_cases [OF k, of ?eps fr w ?p ?t None]
  show ?thesis
  proof (elim disjE exE conjE)
    fix j r le'
    assume "j < 4 * length ?eps"
      "\<forall>i<j. isl (request_try fr w (k + i) (?eps ! (i div 4)) ?p ?t)"
      "request_try fr w (k + j) (?eps ! (j div 4)) ?p ?t = Inr r"
      "endpoint_loop fr w ?p ?t ?eps (None, tr) =
         (Some r, le', tr @ take (7 * (j div 4) + 2 * (j mod 4) + 1) (full_schedule ?eps ?p ?t))"
    then show ?thesis
      unfolding attempt_outcome_def request_schedule_def request_def
      by (intro disjI1 exI [of _ j] exI [of _ r]) simp
  next
    assume a: "\<forall>i<4 * length ?eps. isl (request_try fr w (k + i) (?eps ! (i div 4)) ?p ?t)"
      and b: "endpoint_loop fr w ?p ?t ?eps (None, tr) =
         (None,
          (if ?eps = [] then None
           else Some (projl (request_try fr w (k + (4 * length ?eps - 1)) (last ?eps) ?p ?t))),
          tr @ full_schedule ?eps ?p ?t)"
    show ?thesis
    proof (cases "?eps = []")
      case True
      with b show ?thesis
        unfolding attempt_outcome_def request_schedule_def request_def
        by (intro disjI2) simp
    next
      case False
      with a b lst [OF False] show ?thesis
        unfolding attempt_outcome_def request_schedule_def request_def
        by (intro disjI2) simp
    qed
  qed
qed


lemma sleeps_take_ep_schedule:
  "n \<le> 3 \<Longrightarrow> sleeps (take (2 * n + 1) (ep_schedule ep p t @ rest)) = take n backoffs"
proof -
  assume "n \<le> 3"
  then consider "n = 0" | "n = 1" | "n = 2" | "n = 3" by arith
  then show ?thesis
    by cases (simp_all add: ep_schedule_def backoffs_def)
qed

lemma n_posts_take_ep_schedule:
  "n \<le> 3 \<Longrightarrow> n_posts (take (2 * n + 1) (ep_schedule ep p t @ rest)) = n + 1"
proof -
  assume "n \<le> 3"
  then consider "n = 0" | "n = 1" | "n = 2" | "n = 3" by arith
  then show ?thesis
    by cases (simp_all add: ep_schedule_def)
qed

subsection \<open>Concrete clients and networks\<close>

text \<open>
  A client with two endpoints; a network whose first two POSTs time out and whose later POSTs
  answer with a result; a network that always answers HTTP 503.
\<close>

definition demo_fr :: "rat \<Rightarrow> string" where
  "demo_fr q = ''0.0''"

definition demo_client :: RPCClient where
  "demo_client = \<lparr>endpoints = [''https://a.example'', ''https://b.example''], timeout = 10\<rparr>"

definition ok_response :: "json \<Rightarrow> post_result" where
  "ok_response data = Responds \<lparr>status_code = 200, resp_text = ''body'', json_body = Some data\<rparr>"

definition flaky_world :: world where
  "flaky_world k endpoint payload tmo =
     (if k < 2 then Raises (TransportError ''timed out'')
      else ok_response (JObj [(''jsonrpc'', JStr ''2.0''), (''result'', JInt 7), (''id'', JInt 1)]))"

definition dead_world :: world where
  "dead_world k endpoint payload tmo =
     Responds \<lparr>status_code = 503, resp_text = ''busy'', json_body = None\<rparr>"

lemma str_int_503: "str_int 503 = ''503''"
  by (simp add: str_int_def nat_digits.simps)

subsection \<open>Retry, failover and exhaustion\<close>

text \<open>
  C1. With a non-empty endpoint list, the trace of a call is a prefix of the schedule
  "for each endpoint in list order: POST, sleep 0.5, POST, sleep 1.0, POST, sleep 2.0, POST"
  (so at most four attempts per endpoint, sleeps only between attempts on one endpoint, none
  after its last attempt and none between endpoints). If the call returns a result, the result
  is that of the first attempt that succeeded, all attempts before it failed, and the trace
  ends with that attempt's POST. If the call raises, every attempt failed and the trace is the
  whole schedule. In particular, if the first \<open>n \<le> 3\<close> attempts fail and attempt \<open>n + 1\<close>
  succeeds, the call returns that success after \<open>n + 1\<close> POSTs and exactly the first \<open>n\<close>
  sleeps of 0.5, 1.0, 2.0.
\<close>

theorem request_retry_schedule:
  assumes "endpoints c \<noteq> []"
  shows "prefix (snd (request fr w c m ps [])) (request_schedule c m ps) \<and>
         (case fst (request fr w c m ps []) of
            Inr r \<Rightarrow>
              (\<exists>j<4 * length (endpoints c).
                 (\<forall>i<j. isl (attempt_outcome fr w c m ps 0 i)) \<and>
                 attempt_outcome fr w c m ps 0 j = Inr r \<and>
                 snd (request fr w c m ps []) =
                   take (7 * (j div 4) + 2 * (j mod 4) + 1) (request_schedule c m ps))
          | Inl e \<Rightarrow>
              (\<forall>i<4 * length (endpoints c). isl (attempt_outcome fr w c m ps 0 i)) \<and>
              snd (request fr w c m ps []) = request_schedule c m ps) \<and>
         (\<forall>n r. n \<le> 3 \<and> (\<forall>i<n. isl (attempt_outcome fr w c m ps 0 i)) \<and>
                attempt_outcome fr w c m ps 0 n = Inr r \<longrightarrow>
                fst (request fr w c m ps []) = Inr r \<and>
                sleeps (snd (request fr w c m ps [])) = take n backoffs \<and>
                n_posts (snd (request fr w c m ps [])) = n + 1)"
proof -
  let ?N = "4 * length (endpoints c)"
  let ?out = "attempt_outcome fr w c m ps 0"
  let ?S = "request_schedule c m ps"
  have k: "(0::nat) = n_posts []" by simp
  from request_cases [OF k, of c fr w m ps] show ?thesis
  proof (elim disjE exE conjE)
    fix j r
    assume j: "j < ?N" and before: "\<forall>i<j. isl (?out i)" and at: "?out j = Inr r"
      and run: "request fr w c m ps [] = (Inr r, [] @ take (7 * (j div 4) + 2 * (j mod 4) + 1) ?S)"
    have p1: "prefix (snd (request fr w c m ps [])) ?S"
      using run by (simp add: take_is_prefix)
    have p2: "\<exists>j<?N. (\<forall>i<j. isl (?out i)) \<and> ?out j = Inr r \<and>
                snd (request fr w c m ps []) = take (7 * (j div 4) + 2 * (j mod 4) + 1) ?S"
      using j before at run by auto
    have p3: "fst (request fr w c m ps []) = Inr r' \<and>
              sleeps (snd (request fr w c m ps [])) = take n backoffs \<and>
              n_posts (snd (request fr w c m ps [])) = n + 1"
      if n: "n \<le> 3" and nb: "\<forall>i<n. isl (?out i)" and na: "?out n = Inr r'" for n r'
    proof -
      have "\<not> n < j" using before na by fastforce
      moreover have "\<not> j < n" using nb at by fastforce
      ultimately have jn: "j = n" by simp
      then have r': "r' = r" using at na by simp
      obtain ep rest where eps: "endpoints c = ep # rest"
        using assms by (cases "endpoints c") auto
      have dm: "n div 4 = 0" "n mod 4 = n" using n by simp_all
      have S: "?S = ep_schedule ep (rpc_payload m ps) (timeout c) @
                   full_schedule rest (rpc_payload m ps) (timeout c)"
        by (simp add: request_schedule_def eps)
      have tr: "snd (request fr w c m ps []) = take (2 * n + 1) ?S"
        using run jn dm by simp
      show ?thesis
        using run r' tr sleeps_take_ep_schedule [OF n] n_posts_take_ep_schedule [OF n]
        by (simp add: S)
    qed
    have c2: "case fst (request fr w c m ps []) of
            Inr r \<Rightarrow>
              (\<exists>j<?N. (\<forall>i<j. isl (?out i)) \<and> ?out j = Inr r \<and>
                 snd (request fr w c m ps []) = take (7 * (j div 4) + 2 * (j mod 4) + 1) ?S)
          | Inl e \<Rightarrow> (\<forall>i<?N. isl (?out i)) \<and> snd (request fr w c m ps []) = ?S"
      using p2 by (simp add: run)
    have c3: "\<forall>n r. n \<le> 3 \<and> (\<forall>i<n. isl (?out i)) \<and> ?out n = Inr r \<longrightarrow>
                fst (request fr w c m ps []) = Inr r \<and>
                sleeps (snd (request fr w c m ps [])) = take n backoffs \<and>
                n_posts (snd (request fr w c m ps [])) = n + 1"
      using p3 by blast
    show ?thesis using p1 c2 c3 by (intro conjI)
  next
    assume all: "\<forall>i<?N. isl (?out i)"
      and run: "request fr w c m ps [] =
         (Inl (RPCError (all_failed_msg (if endpoints c = [] then None
            else Some (projl (?out (?N - 1)))))), [] @ ?S)"
    have p3: "\<not> (n \<le> 3 \<and> (\<forall>i<n. isl (?out i)) \<and> ?out n = Inr r')" for n r'
    proof
      assume a: "n \<le> 3 \<and> (\<forall>i<n. isl (?out i)) \<and> ?out n = Inr r'"
      have "0 < length (endpoints c)" using assms by simp
      then have "n < ?N" using a by linarith
      then have "isl (?out n)" using all by blast
      then show False using a by simp
    qed
    have c1: "prefix (snd (request fr w c m ps [])) ?S" by (simp add: run)
    have c2: "case fst (request fr w c m ps []) of
            Inr r \<Rightarrow>
              (\<exists>j<?N. (\<forall>i<j. isl (?out i)) \<and> ?out j = Inr r \<and>
                 snd (request fr w c m ps []) = take (7 * (j div 4) + 2 * (j mod 4) + 1) ?S)
          | Inl e \<Rightarrow> (\<forall>i<?N. isl (?out i)) \<and> snd (request fr w c m ps []) = ?S"
      using all by (simp add: run)
    have c3: "\<forall>n r. n \<le> 3 \<and> (\<forall>i<n. isl (?out i)) \<and> ?out n = Inr r \<longrightarrow>
                fst (request fr w c m ps []) = Inr r \<and>
                sleeps (snd (request fr w c m ps [])) = take n backoffs \<and>
                n_posts (snd (request fr w c m ps [])) = n + 1"
      using p3 by blast
    show ?thesis using c1 c2 c3 by (intro conjI)
  qed
qed

theorem request_retry_schedule_witness:
  "endpoints demo_client \<noteq> [] \<and>
   fst (request demo_fr flaky_world demo_client ''getBalance'' [] []) = Inr (JInt 7) \<and>
   sleeps (snd (request demo_fr flaky_world demo_client ''getBalance'' [] [])) = [1 / 2, 1] \<and>
   n_posts (snd (request demo_fr flaky_world demo_client ''getBalance'' [] [])) = 3"
proof -
  have ne: "endpoints demo_client \<noteq> []" by (simp add: demo_client_def)
  let ?out = "attempt_outcome demo_fr flaky_world demo_client ''getBalance'' [] 0"
  have fails: "\<forall>i<2. isl (?out i)"
    by (simp add: attempt_outcome_def request_try_def flaky_world_def)
  have ok: "?out 2 = Inr (JInt 7)"
    by (simp add: attempt_outcome_def request_try_def flaky_world_def ok_response_def)
  have "(2::nat) \<le> 3" by simp
  with request_retry_schedule [OF ne, of demo_fr flaky_world "''getBalance''" "[]"] fails ok
  have "fst (request demo_fr flaky_world demo_client ''getBalance'' [] []) = Inr (JInt 7) \<and>
        sleeps (snd (request demo_fr flaky_world demo_client ''getBalance'' [] [])) = take 2 backoffs \<and>
        n_posts (snd (request demo_fr flaky_world demo_client ''getBalance'' [] [])) = 2 + 1"
    by blast
  then show ?thesis using ne by (simp add: backoffs_def)
qed

text \<open>
  C2. With a non-empty endpoint list, if every attempt on every endpoint fails, the call raises
  \<open>RPCError\<close> and the message is "All RPC endpoints failed: " followed by the text of the
  failure of the last attempt on the last endpoint.
\<close>

theorem request_all_fail:
  assumes "endpoints c \<noteq> []"
    and "\<forall>i<4 * length (endpoints c). isl (attempt_outcome fr w c m ps (n_posts tr) i)"
  shows "\<exists>reason.
           attempt_outcome fr w c m ps (n_posts tr) (4 * length (endpoints c) - 1) = Inl reason \<and>
           fst (request fr w c m ps tr) =
             Inl (RPCError (''All RPC endpoints failed: '' @ exn_str reason))"
proof -
  let ?N = "4 * length (endpoints c)"
  let ?out = "attempt_outcome fr w c m ps (n_posts tr)"
  have "?N - 1 < ?N" using assms(1) by simp
  then have "isl (?out (?N - 1))" using assms(2) by blast
  then obtain reason where reason: "?out (?N - 1) = Inl reason"
    by (cases "?out (?N - 1)") auto
  from request_cases [OF refl, of c fr w m ps tr] show ?thesis
  proof (elim disjE exE conjE)
    fix j r
    assume "j < ?N" "?out j = Inr r"
    with assms(2) show ?thesis by fastforce
  next
    assume "request fr w c m ps tr =
      (Inl (RPCError (all_failed_msg (if endpoints c = [] then None else Some (projl (?out (?N - 1)))))),
       tr @ request_schedule c m ps)"
    with assms(1) reason show ?thesis
      by (simp add: all_failed_msg_def)
  qed
qed

theorem request_all_fail_witness:
  "endpoints demo_client \<noteq> [] \<and>
   fst (request demo_fr dead_world demo_client ''getBalance'' [] []) =
     Inl (RPCError ''All RPC endpoints failed: HTTP 503 from https://b.example: busy'')"
proof -
  have ne: "endpoints demo_client \<noteq> []" by (simp add: demo_client_def)
  have out: "attempt_outcome demo_fr dead_world demo_client ''getBalance'' [] k i =
        Inl (RPCError (''HTTP 503 from '' @ (endpoints demo_client ! (i div 4)) @ '': busy''))" for k i
    by (simp add: attempt_outcome_def request_try_def dead_world_def str_int_503)
  have all: "\<forall>i<4 * length (endpoints demo_client).
        isl (attempt_outcome demo_fr dead_world demo_client ''getBalance'' [] (n_posts []) i)"
    by (simp add: out)
  from request_all_fail [OF ne all] obtain reason where
    r1: "attempt_outcome demo_fr dead_world demo_client ''getBalance'' [] (n_posts [])
       (4 * length (endpoints demo_client) - 1) = Inl reason" and
    r2: "fst (request demo_fr dead_world demo_client ''getBalance'' [] []) =
       Inl (RPCError (''All RPC endpoints failed: '' @ exn_str reason))"
    by blast
  from r1 have "reason = RPCError (''HTTP 503 from '' @
      (endpoints demo_client ! ((4 * length (endpoints demo_client) - 1) div 4)) @ '': busy'')"
    by (simp only: out sum.inject)
  then have "exn_str reason = ''HTTP 503 from https://b.example: busy''"
    by (simp add: demo_client_def)
  with r2 ne show ?thesis by simp
qed

text \<open>
  C10. A client with an empty endpoint list raises \<open>RPCError\<close> at once: the trace is unchanged,
  so there is no POST and no sleep.
\<close>

theorem request_no_endpoints:
  assumes "endpoints c = []"
  shows "request fr w c method params tr = (Inl (RPCError ''All RPC endpoints failed: None''), tr)"
  using assms by (simp add: request_def all_failed_msg_def)

theorem request_no_endpoints_witness:
  "endpoints \<lparr>endpoints = [], timeout = 10\<rparr> = [] \<and>
   request demo_fr dead_world \<lparr>endpoints = [], timeout = 10\<rparr> ''getBalance'' [] [] =
     (Inl (RPCError ''All RPC endpoints failed: None''), [])"
  using request_no_endpoints [of "\<lparr>endpoints = [], timeout = 10\<rparr>" demo_fr dead_world "''getBalance''" "[]" "[]"]
  by simp

subsection \<open>Classification of one attempt\<close>

text \<open>
  Two more networks: one answers with a payload whose error field is the number 0 next to a
  result, one answers with a JSON-RPC error object.
\<close>

definition falsy_error_world :: world where
  "falsy_error_world k endpoint payload tmo =
     ok_response (JObj [(''jsonrpc'', JStr ''2.0''), (''error'', JInt 0), (''result'', JInt 7)])"

definition rpc_error_world :: world where
  "rpc_error_world k endpoint payload tmo =
     ok_response (JObj [(''jsonrpc'', JStr ''2.0''),
                        (''error'', JObj [(''code'', JInt (- 32005)), (''message'', JStr ''slow down'')]),
                        (''id'', JInt 1)])"

text \<open>
  C3 as stated fails: the source tests \<open>if data.get("error")\<close>, the truth value of the
  field, not whether it is null. A payload with the non-null error field 0 and a result is
  classified as a success.
\<close>

theorem request_try_falsy_error_counterexample:
  "falsy_error_world 0 ''https://a.example'' (rpc_payload ''getBalance'' []) 10 =
     ok_response (JObj [(''jsonrpc'', JStr ''2.0''), (''error'', JInt 0), (''result'', JInt 7)]) \<and>
   JInt 0 \<noteq> JNull \<and>
   request_try demo_fr falsy_error_world 0 ''https://a.example'' (rpc_payload ''getBalance'' []) 10 =
     Inr (JInt 7)"
  by (simp add: request_try_def falsy_error_world_def ok_response_def)

text \<open>
  C3, amended. For an attempt that receives HTTP 200 with a body that parses to \<open>data\<close>:
  if \<open>data\<close> is an object whose error field is present and true in Python's sense (not
  null, false, 0, 0.0, the empty string, the empty array or the empty object), the attempt
  fails with "RPC error from <endpoint>: <error>"; if \<open>data\<close> is an object whose error field
  is absent or false in that sense, the attempt fails with "Malformed response from
  <endpoint>: <data>" when there is no result field and succeeds with the result field's
  value otherwise; if \<open>data\<close> is not an object the attempt fails.
\<close>

theorem request_try_classification:
  assumes "w k endpoint payload tmo = Responds response"
    and "status_code response = 200"
    and "json_body response = Some data"
  shows "(\<forall>kvs err. data = JObj kvs \<and> map_of kvs ''error'' = Some err \<and> truthy err \<longrightarrow>
            request_try fr w k endpoint payload tmo =
              Inl (RPCError (''RPC error from '' @ endpoint @ '': '' @ py_str fr err))) \<and>
         (\<forall>kvs. data = JObj kvs \<and> (\<forall>err. map_of kvs ''error'' = Some err \<longrightarrow> \<not> truthy err) \<longrightarrow>
            request_try fr w k endpoint payload tmo =
              (case map_of kvs ''result'' of
                 None \<Rightarrow> Inl (RPCError (''Malformed response from '' @ endpoint @ '': '' @ py_str fr data))
               | Some result \<Rightarrow> Inr result)) \<and>
         ((\<forall>kvs. data \<noteq> JObj kvs) \<longrightarrow> isl (request_try fr w k endpoint payload tmo))"
proof (intro conjI allI impI)
  fix kvs err
  assume "data = JObj kvs \<and> map_of kvs ''error'' = Some err \<and> truthy err"
  then show "request_try fr w k endpoint payload tmo =
      Inl (RPCError (''RPC error from '' @ endpoint @ '': '' @ py_str fr err))"
    using assms by (simp add: request_try_def)
next
  fix kvs
  assume a: "data = JObj kvs \<and> (\<forall>err. map_of kvs ''error'' = Some err \<longrightarrow> \<not> truthy err)"
  then have d: "data = JObj kvs" by simp
  from a have "\<not> truthy (case map_of kvs ''error'' of None \<Rightarrow> JNull | Some v \<Rightarrow> v)"
    by (cases "map_of kvs ''error''") auto
  then show "request_try fr w k endpoint payload tmo =
      (case map_of kvs ''result'' of
         None \<Rightarrow> Inl (RPCError (''Malformed response from '' @ endpoint @ '': '' @ py_str fr data))
       | Some result \<Rightarrow> Inr result)"
    using assms unfolding d by (simp add: request_try_def)
next
  assume "\<forall>kvs. data \<noteq> JObj kvs"
  then show "isl (request_try fr w k endpoint payload tmo)"
    using assms by (cases data) (simp_all add: request_try_def)
qed

lemma py_str_rpc_error:
  "py_str demo_fr (JObj [(''code'', JInt (- 32005)), (''message'', JStr ''slow down'')]) =
     [CHR ''{'', CHR 0x27] @ ''code'' @ [CHR 0x27] @ '': -32005, '' @ [CHR 0x27] @ ''message'' @ [CHR 0x27] @
     '': '' @ [CHR 0x27] @ ''slow down'' @ [CHR 0x27] @ ''}''"
  by (simp add: py_str_def repr_str_def repr_char_def printable_def str_int_def nat_digits.simps Let_def)

theorem request_try_classification_witness:
  "rpc_error_world 0 ''https://a.example'' (rpc_payload ''getBalance'' []) 10 =
     ok_response (JObj [(''jsonrpc'', JStr ''2.0''),
                        (''error'', JObj [(''code'', JInt (- 32005)), (''message'', JStr ''slow down'')]),
                        (''id'', JInt 1)]) \<and>
   request_try demo_fr rpc_error_world 0 ''https://a.example'' (rpc_payload ''getBalance'' []) 10 =
     Inl (RPCError (''RPC error from https://a.example: '' @
       [CHR ''{'', CHR 0x27] @ ''code'' @ [CHR 0x27] @ '': -32005, '' @ [CHR 0x27] @ ''message'' @ [CHR 0x27] @
       '': '' @ [CHR 0x27] @ ''slow down'' @ [CHR 0x27] @ ''}'')) \<and>
   request_try demo_fr flaky_world 2 ''https://a.example'' (rpc_payload ''getBalance'' []) 10 =
     Inr (JInt 7)"
proof -
  let ?p = "rpc_payload ''getBalance'' []"
  let ?err = "JObj [(''code'', JInt (- 32005)), (''message'', JStr ''slow down'')]"
  let ?kvs = "[(''jsonrpc'', JStr ''2.0''), (''error'', ?err), (''id'', JInt 1)]"
  let ?r = "\<lparr>status_code = 200, resp_text = ''body'', json_body = Some (JObj ?kvs)\<rparr>"
  have w1: "rpc_error_world 0 ''https://a.example'' ?p 10 = Responds ?r"
    by (simp add: rpc_error_world_def ok_response_def)
  have "request_try demo_fr rpc_error_world 0 ''https://a.example'' ?p 10 =
      Inl (RPCError (''RPC error from '' @ ''https://a.example'' @ '': '' @ py_str demo_fr ?err))"
    using request_try_classification
      [where w = rpc_error_world and k = 0 and endpoint = "''https://a.example''" and payload = ?p
         and tmo = 10 and response = ?r and data = "JObj ?kvs" and fr = demo_fr]
      w1 by simp
  then have e1: "request_try demo_fr rpc_error_world 0 ''https://a.example'' ?p 10 =
     Inl (RPCError (''RPC error from https://a.example: '' @
       [CHR ''{'', CHR 0x27] @ ''code'' @ [CHR 0x27] @ '': -32005, '' @ [CHR 0x27] @ ''message'' @ [CHR 0x27] @
       '': '' @ [CHR 0x27] @ ''slow down'' @ [CHR 0x27] @ ''}''))"
    by (simp only: py_str_rpc_error) simp
  let ?kvs2 = "[(''jsonrpc'', JStr ''2.0''), (''result'', JInt 7), (''id'', JInt 1)]"
  let ?r2 = "\<lparr>status_code = 200, resp_text = ''body'', json_body = Some (JObj ?kvs2)\<rparr>"
  have w2: "flaky_world 2 ''https://a.example'' ?p 10 = Responds ?r2"
    by (simp add: flaky_world_def ok_response_def)
  have e2: "request_try demo_fr flaky_world 2 ''https://a.example'' ?p 10 = Inr (JInt 7)"
    using request_try_classification
      [where w = flaky_world and k = 2 and endpoint = "''https://a.example''" and payload = ?p
         and tmo = 10 and response = ?r2 and data = "JObj ?kvs2" and fr = demo_fr]
      w2 by simp
  show ?thesis using e1 e2 by (simp add: rpc_error_world_def)
qed

section \<open>Base58 and the address check\<close>

type_synonym byte = "8 word"

definition BASE58_ALPHABET :: string where
  "BASE58_ALPHABET = ''123456789ABCDEFGHJKLMNPQRSTUVWXYZabcdefghijkmnopqrstuvwxyz''"

text \<open>\<open>s.find(ch)\<close> for a one-character \<open>ch\<close>: the first index of \<open>ch\<close>, or \<open>-1\<close>.\<close>

fun str_find :: "string \<Rightarrow> char \<Rightarrow> int" where
  "str_find [] ch = - 1"
| "str_find (x # xs) ch =
     (if x = ch then 0 else (let r = str_find xs ch in if r = - 1 then - 1 else r + 1))"

text \<open>\<open>n.bit_length()\<close> and \<open>n.to_bytes(length, "big")\<close>.\<close>

fun bit_length_nat :: "nat \<Rightarrow> nat" where
  "bit_length_nat n = (if n = 0 then 0 else Suc (bit_length_nat (n div 2)))"

declare bit_length_nat.simps [simp del]

definition bit_length :: "int \<Rightarrow> nat" where
  "bit_length i = bit_length_nat (nat \<bar>i\<bar>)"

definition to_bytes_big :: "int \<Rightarrow> nat \<Rightarrow> py_exn + byte list" where
  "to_bytes_big num len =
     (if num < 0 then
        Inl (OverflowError (''can'' @ [CHR 0x27] @ ''t convert negative int to unsigned''))
      else if 256 ^ len \<le> num then Inl (OverflowError ''int too big to convert'')
      else Inr (map (\<lambda>i. of_int (num div 256 ^ (len - 1 - i))) [0..<len]))"

text \<open>The loop of \<open>base58_decode\<close> over the characters, with the accumulator \<open>num\<close>.\<close>

fun decode_loop :: "string \<Rightarrow> int \<Rightarrow> py_exn + int" where
  "decode_loop [] num = Inr num"
| "decode_loop (ch # rest) num =
     (let idx = str_find BASE58_ALPHABET ch in
      if idx = - 1 then Inl (ValueError (''invalid base58 character: '' @ [ch]))
      else decode_loop rest (num * 58 + idx))"

definition lstrip :: "char \<Rightarrow> string \<Rightarrow> string" where
  "lstrip c s = dropWhile (\<lambda>x. x = c) s"

definition base58_decode :: "string \<Rightarrow> py_exn + byte list" where
  "base58_decode value =
     (if value = [] then Inl (ValueError ''empty base58 string'')
      else
        (case decode_loop value 0 of
           Inl exc \<Rightarrow> Inl exc
         | Inr num \<Rightarrow>
             (case (if num \<noteq> 0 then to_bytes_big num ((bit_length num + 7) div 8) else Inr []) of
                Inl exc \<Rightarrow> Inl exc
              | Inr combined \<Rightarrow>
                  (let pad = length value - length (lstrip (CHR ''1'') value)
                   in Inr (replicate pad 0 @ combined)))))"

text \<open>
  \<open>validate_address\<close>: the \<open>except ValueError\<close> wraps a \<open>ValueError\<close> of the decoder; any
  other exception would pass through.
\<close>

definition validate_address :: "string \<Rightarrow> py_exn + unit" where
  "validate_address address =
     (case base58_decode address of
        Inl exc \<Rightarrow>
          (case exc of
             ValueError m \<Rightarrow> Inl (ValueError (''Invalid address: '' @ exn_str exc))
           | _ \<Rightarrow> Inl exc)
      | Inr decoded \<Rightarrow>
          if length decoded \<noteq> 32 then
            Inl (ValueError (''Invalid address length: decoded to '' @
                             str_int (int (length decoded)) @ '' bytes, expected 32''))
          else Inr ())"

subsection \<open>The decoding as the specification words it\<close>

text \<open>
  The value of a character is its position in the alphabet; the value of a string is the
  big-endian base-58 number of its characters; the minimal big-endian byte sequence of a number
  has no leading zero byte (and is empty for 0); one zero byte is put in front for every
  leading \<open>1\<close> of the input.
\<close>

definition b58_digit :: "char \<Rightarrow> nat" where
  "b58_digit ch = nat (str_find BASE58_ALPHABET ch)"

fun b58_value :: "string \<Rightarrow> nat" where
  "b58_value [] = 0"
| "b58_value (ch # rest) = b58_digit ch * 58 ^ length rest + b58_value rest"

fun min_bytes :: "nat \<Rightarrow> byte list" where
  "min_bytes n = (if n = 0 then [] else min_bytes (n div 256) @ [of_nat (n mod 256)])"

declare min_bytes.simps [simp del]

definition spec_decode :: "string \<Rightarrow> byte list" where
  "spec_decode s = replicate (length (takeWhile (\<lambda>c. c = CHR ''1'') s)) 0 @ min_bytes (b58_value s)"

definition valid_address :: "string \<Rightarrow> bool" where
  "valid_address s = (s \<noteq> [] \<and> set s \<subseteq> set BASE58_ALPHABET \<and> length (spec_decode s) = 32)"

lemma str_find_range: "(ch \<in> set xs \<longrightarrow> 0 \<le> str_find xs ch) \<and> (ch \<notin> set xs \<longrightarrow> str_find xs ch = - 1)"
  by (induction xs) (auto simp: Let_def)

lemma str_find_neg: "str_find xs ch = - 1 \<longleftrightarrow> ch \<notin> set xs"
  using str_find_range [of ch xs] by auto

lemma str_find_nonneg: "ch \<in> set xs \<Longrightarrow> 0 \<le> str_find xs ch"
  using str_find_range [of ch xs] by auto

lemma decode_loop_ok:
  "set s \<subseteq> set BASE58_ALPHABET \<Longrightarrow>
   decode_loop s num = Inr (num * 58 ^ length s + int (b58_value s))"
proof (induction s arbitrary: num)
  case Nil
  then show ?case by simp
next
  case (Cons ch rest)
  then have ch: "ch \<in> set BASE58_ALPHABET" and rest: "set rest \<subseteq> set BASE58_ALPHABET" by auto
  from ch have ne: "str_find BASE58_ALPHABET ch \<noteq> - 1" by (simp add: str_find_neg)
  from ch have d: "int (b58_digit ch) = str_find BASE58_ALPHABET ch"
    by (simp add: b58_digit_def str_find_nonneg)
  show ?case
    using Cons.IH [OF rest, of "num * 58 + str_find BASE58_ALPHABET ch"] ne d
    by (simp add: Let_def algebra_simps)
qed

lemma decode_loop_bad:
  "\<not> set s \<subseteq> set BASE58_ALPHABET \<Longrightarrow> \<exists>m. decode_loop s num = Inl (ValueError m)"
proof (induction s arbitrary: num)
  case Nil
  then show ?case by simp
next
  case (Cons ch rest)
  show ?case
  proof (cases "ch \<in> set BASE58_ALPHABET")
    case True
    with Cons.prems have "\<not> set rest \<subseteq> set BASE58_ALPHABET" by auto
    from Cons.IH [OF this] True show ?thesis
      by (simp add: Let_def str_find_neg)
  next
    case False
    then show ?thesis by (simp add: Let_def str_find_neg)
  qed
qed

lemma bit_length_nat_bounds:
  "n < 2 ^ bit_length_nat n \<and> (0 < n \<longrightarrow> 2 ^ (bit_length_nat n - 1) \<le> n)"
proof (induction n rule: bit_length_nat.induct)
  case (1 n)
  show ?case
  proof (cases "n = 0")
    case True
    then show ?thesis by (simp add: bit_length_nat.simps [of 0])
  next
    case False
    then have bl: "bit_length_nat n = Suc (bit_length_nat (n div 2))"
      by (subst bit_length_nat.simps) simp
    from 1 [OF False] have ih1: "n div 2 < 2 ^ bit_length_nat (n div 2)"
      and ih2: "0 < n div 2 \<longrightarrow> 2 ^ (bit_length_nat (n div 2) - 1) \<le> n div 2" by auto
    have a: "n < 2 ^ bit_length_nat n" using ih1 bl by simp
    have b: "2 ^ (bit_length_nat n - 1) \<le> n"
    proof (cases "n div 2 = 0")
      case True
      then have "bit_length_nat (n div 2) = 0" by (subst bit_length_nat.simps) simp
      then show ?thesis using bl False by simp
    next
      case nz: False
      then have "bit_length_nat (n div 2) = Suc (bit_length_nat (n div 2 div 2))"
        by (subst bit_length_nat.simps) simp
      then have "(2::nat) ^ bit_length_nat (n div 2) = 2 * 2 ^ (bit_length_nat (n div 2) - 1)"
        by simp
      moreover have "2 ^ (bit_length_nat (n div 2) - 1) \<le> n div 2" using ih2 nz by simp
      ultimately show ?thesis using bl by simp
    qed
    show ?thesis using a b by simp
  qed
qed


lemma min_bytes_0: "min_bytes 0 = []"
  by (subst min_bytes.simps) simp

lemma min_bytes_pos: "0 < n \<Longrightarrow> min_bytes n = min_bytes (n div 256) @ [of_nat (n mod 256)]"
  by (subst min_bytes.simps) simp

lemma bit_length_nat_0: "bit_length_nat 0 = 0"
  by (subst bit_length_nat.simps) simp

lemma length_min_bytes_bounds:
  "n < 256 ^ length (min_bytes n) \<and> (0 < n \<longrightarrow> 256 ^ (length (min_bytes n) - 1) \<le> n)"
proof (induction n rule: min_bytes.induct)
  case (1 n)
  show ?case
  proof (cases "n = 0")
    case True
    then show ?thesis by (simp add: min_bytes_0)
  next
    case False
    then have len: "length (min_bytes n) = Suc (length (min_bytes (n div 256)))"
      by (simp add: min_bytes_pos)
    from 1 [OF False] have ih1: "n div 256 < 256 ^ length (min_bytes (n div 256))"
      and ih2: "0 < n div 256 \<longrightarrow> 256 ^ (length (min_bytes (n div 256)) - 1) \<le> n div 256" by auto
    have a: "n < 256 ^ length (min_bytes n)" using ih1 len by simp
    have b: "256 ^ (length (min_bytes n) - 1) \<le> n"
    proof (cases "n div 256 = 0")
      case True
      then have "length (min_bytes (n div 256)) = 0" by (simp add: min_bytes_0)
      then show ?thesis using len False by simp
    next
      case nz: False
      then have "length (min_bytes (n div 256)) = Suc (length (min_bytes (n div 256 div 256)))"
        by (simp add: min_bytes_pos)
      then have "(256::nat) ^ length (min_bytes (n div 256)) = 256 * 256 ^ (length (min_bytes (n div 256)) - 1)"
        by simp
      moreover have "256 ^ (length (min_bytes (n div 256)) - 1) \<le> n div 256" using ih2 nz by simp
      ultimately show ?thesis using len by simp
    qed
    show ?thesis using a b by simp
  qed
qed


lemma pow256: "(256::nat) ^ k = 2 ^ (8 * k)"
proof -
  have "(256::nat) = 2 ^ 8" by simp
  then show ?thesis by (simp only: power_mult)
qed

lemma length_min_bytes: "length (min_bytes n) = (bit_length_nat n + 7) div 8"
proof (cases "n = 0")
  case True
  then show ?thesis by (simp add: min_bytes_0 bit_length_nat_0)
next
  case False
  let ?b = "bit_length_nat n" and ?M = "length (min_bytes n)"
  from False bit_length_nat_bounds [of n] have b1: "n < 2 ^ ?b" and b2: "2 ^ (?b - 1) \<le> n" by auto
  from False length_min_bytes_bounds [of n] have "n < 256 ^ ?M" and "256 ^ (?M - 1) \<le> n" by auto
  then have m1: "n < 2 ^ (8 * ?M)" and m2: "2 ^ (8 * (?M - 1)) \<le> n"
    by (simp_all only: pow256)
  have "(2::nat) ^ (?b - 1) < 2 ^ (8 * ?M)" using b2 m1 by (rule le_less_trans)
  then have c1: "?b - 1 < 8 * ?M" by (simp only: power_strict_increasing_iff one_less_numeral_iff semiring_norm)
  have "(2::nat) ^ (8 * (?M - 1)) < 2 ^ ?b" using m2 b1 by (rule le_less_trans)
  then have c2: "8 * (?M - 1) < ?b" by (simp only: power_strict_increasing_iff one_less_numeral_iff semiring_norm)
  have "0 < ?M" using False by (simp add: min_bytes_pos)
  with c1 c2 show ?thesis by arith
qed


lemma byte_of_nat_mod: "(of_nat (n mod 256) :: byte) = of_nat n"
proof -
  have "(of_nat (n mod 2 ^ LENGTH(8)) :: byte) = of_nat n"
    by (simp only: word_of_nat_eq_iff take_bit_eq_mod mod_mod_trivial)
  then show ?thesis by simp
qed

lemma be_bytes_step:
  "map (\<lambda>i. (of_int (int n div 256 ^ (Suc L - 1 - i)) :: byte)) [0..<Suc L] =
   map (\<lambda>i. of_int (int (n div 256) div 256 ^ (L - 1 - i))) [0..<L] @ [of_nat (n mod 256)]"
proof -
  have last: "(of_int (int n div 256 ^ (Suc L - 1 - L)) :: byte) = of_nat (n mod 256)"
    by (simp add: byte_of_nat_mod)
  have "(of_int (int n div 256 ^ (Suc L - 1 - i)) :: byte) =
        of_int (int (n div 256) div 256 ^ (L - 1 - i))" if "i < L" for i
  proof -
    from that have "Suc L - 1 - i = Suc (L - 1 - i)" by simp
    then have "int n div 256 ^ (Suc L - 1 - i) = int n div (256 * 256 ^ (L - 1 - i))" by simp
    also have "\<dots> = (int n div 256) div 256 ^ (L - 1 - i)"
      by (simp add: zdiv_zmult2_eq)
    also have "int n div 256 = int (n div 256)" by (simp add: zdiv_int)
    finally show ?thesis by simp
  qed
  then have "map (\<lambda>i. (of_int (int n div 256 ^ (Suc L - 1 - i)) :: byte)) [0..<L] =
             map (\<lambda>i. of_int (int (n div 256) div 256 ^ (L - 1 - i))) [0..<L]"
    by (intro map_cong) auto
  with last show ?thesis by (simp only: upt_Suc_append [OF le0] map_append list.map)
qed

lemma be_bytes_min_bytes:
  "map (\<lambda>i. (of_int (int n div 256 ^ (length (min_bytes n) - 1 - i)) :: byte))
     [0..<length (min_bytes n)] = min_bytes n"
proof (induction n rule: min_bytes.induct)
  case (1 n)
  show ?case
  proof (cases "n = 0")
    case True
    then show ?thesis by (simp add: min_bytes_0)
  next
    case False
    then have mb: "min_bytes n = min_bytes (n div 256) @ [of_nat (n mod 256)]"
      by (simp add: min_bytes_pos)
    then have len: "length (min_bytes n) = Suc (length (min_bytes (n div 256)))" by simp
    show ?thesis
      unfolding len be_bytes_step
      using 1 [OF False] mb by simp
  qed
qed


lemma to_bytes_big_min_bytes:
  "to_bytes_big (int n) ((bit_length (int n) + 7) div 8) = Inr (min_bytes n)"
proof -
  have L: "(bit_length (int n) + 7) div 8 = length (min_bytes n)"
    by (simp add: bit_length_def length_min_bytes)
  have "n < 256 ^ length (min_bytes n)" using length_min_bytes_bounds [of n] by simp
  then have "int n < 256 ^ length (min_bytes n)"
    by (metis of_nat_less_iff of_nat_numeral of_nat_power)
  then have "\<not> 256 ^ length (min_bytes n) \<le> int n" by simp
  moreover have "\<not> int n < 0" by simp
  ultimately show ?thesis
    unfolding L to_bytes_big_def by (simp only: if_False be_bytes_min_bytes)
qed

lemma pad_length:
  "length s - length (lstrip c s) = length (takeWhile (\<lambda>x. x = c) s)"
proof -
  have "length (takeWhile (\<lambda>x. x = c) s) + length (dropWhile (\<lambda>x. x = c) s) = length s"
    by (metis length_append takeWhile_dropWhile_id)
  then show ?thesis by (simp add: lstrip_def)
qed

lemma base58_decode_ok:
  assumes "s \<noteq> []" and "set s \<subseteq> set BASE58_ALPHABET"
  shows "base58_decode s = Inr (spec_decode s)"
proof -
  have loop: "decode_loop s 0 = Inr (int (b58_value s))"
    using decode_loop_ok [OF assms(2), of 0] by simp
  show ?thesis
    using assms(1)
    by (simp add: base58_decode_def loop spec_decode_def pad_length to_bytes_big_min_bytes
        min_bytes_0)
qed

lemma base58_decode_bad:
  assumes "s = [] \<or> \<not> set s \<subseteq> set BASE58_ALPHABET"
  shows "\<exists>m. base58_decode s = Inl (ValueError m)"
proof (cases "s = []")
  case True
  then show ?thesis by (simp add: base58_decode_def)
next
  case False
  with assms have "\<not> set s \<subseteq> set BASE58_ALPHABET" by simp
  from decode_loop_bad [OF this, of 0] obtain m where "decode_loop s 0 = Inl (ValueError m)" by blast
  then show ?thesis using False by (simp add: base58_decode_def)
qed

text \<open>
  C4. \<open>validate_address\<close> succeeds exactly on the non-empty strings over the base58 alphabet
  whose decoding, as the specification words it, is 32 bytes long; on every other string it
  raises a \<open>ValueError\<close> whose message starts with "Invalid address".
\<close>

theorem validate_address_iff:
  "(validate_address s = Inr () \<longleftrightarrow> valid_address s) \<and>
   (valid_address s \<or> (\<exists>m. validate_address s = Inl (ValueError (''Invalid address'' @ m))))"
proof (cases "s \<noteq> [] \<and> set s \<subseteq> set BASE58_ALPHABET")
  case True
  then have dec: "base58_decode s = Inr (spec_decode s)" by (simp add: base58_decode_ok)
  show ?thesis
  proof (cases "length (spec_decode s) = 32")
    case l: True
    with True dec show ?thesis by (simp add: validate_address_def valid_address_def)
  next
    case l: False
    with True dec show ?thesis by (simp add: validate_address_def valid_address_def)
  qed
next
  case False
  then have "s = [] \<or> \<not> set s \<subseteq> set BASE58_ALPHABET" by blast
  from base58_decode_bad [OF this] obtain m where "base58_decode s = Inl (ValueError m)" by blast
  with False show ?thesis by (auto simp: validate_address_def valid_address_def)
qed


theorem validate_address_iff_witness:
  "valid_address ''11111111111111111111111111111111'' \<and>
   validate_address ''11111111111111111111111111111111'' = Inr () \<and>
   \<not> valid_address ''0OIl'' \<and>
   (\<exists>m. validate_address ''0OIl'' = Inl (ValueError (''Invalid address'' @ m)))"
proof -
  have v: "valid_address ''11111111111111111111111111111111''"
    by (simp add: valid_address_def spec_decode_def b58_digit_def BASE58_ALPHABET_def min_bytes_0)
  have nv: "\<not> valid_address ''0OIl''"
    by (simp add: valid_address_def BASE58_ALPHABET_def)
  from validate_address_iff [of "''11111111111111111111111111111111''"] v
  have a: "validate_address ''11111111111111111111111111111111'' = Inr ()" by blast
  from validate_address_iff [of "''0OIl''"] nv
  have b: "\<exists>m. validate_address ''0OIl'' = Inl (ValueError (''Invalid address'' @ m))" by blast
  from v a nv b show ?thesis by blast
qed

section \<open>Lamports as a display value\<close>

text \<open>
  A Python float is an IEEE binary64 number. The finite ones are kept as the rationals they
  denote; infinities, NaN and the sign of zero are not represented, and none of them arises
  from dividing an integer by \<open>1_000_000_000\<close>.
\<close>

definition pow2 :: "int \<Rightarrow> rat" where
  "pow2 e = (if 0 \<le> e then 2 ^ nat e else 1 / 2 ^ nat (- e))"

definition round_half_even :: "rat \<Rightarrow> int" where
  "round_half_even q =
     (let f = \<lfloor>q\<rfloor>; r = q - of_int f
      in if r < 1 / 2 then f else if 1 / 2 < r then f + 1 else if even f then f else f + 1)"

text \<open>The exponent \<open>e\<close> with \<open>2 ^ e \<le> a < 2 ^ (e + 1)\<close>, for a positive rational \<open>a\<close>.\<close>

definition floor_log2 :: "rat \<Rightarrow> int" where
  "floor_log2 a =
     (let (p, q) = quotient_of a;
          e0 = int (bit_length_nat (nat p)) - int (bit_length_nat (nat q))
      in if pow2 e0 \<le> a then e0 else e0 - 1)"

text \<open>
  Rounding an exact quotient to the nearest binary64 number, ties to even: 53 significant
  bits, the least exponent \<open>-1074\<close>; \<open>None\<close> when the rounded value does not fit.
\<close>

definition round_double :: "rat \<Rightarrow> rat option" where
  "round_double x =
     (if x = 0 then Some 0
      else
        (let a = \<bar>x\<bar>;
             ex = max (floor_log2 a - 52) (- 1074);
             r = of_int (round_half_even (a / pow2 ex)) * pow2 ex
         in if pow2 1024 \<le> r then None else Some (if x < 0 then - r else r)))"

definition lamports_to_sol :: "int \<Rightarrow> py_exn + rat" where
  "lamports_to_sol lamports =
     (case round_double (of_int lamports / 1000000000) of
        None \<Rightarrow> Inl (OverflowError ''integer division result too large for a float'')
      | Some sol \<Rightarrow> Inr sol)"

text \<open>\<open>f"{sol:.9f}"\<close>: the exact value rounded to nine decimals, ties to even.\<close>

definition format_9f :: "rat \<Rightarrow> string" where
  "format_9f x =
     (let n = round_half_even (\<bar>x\<bar> * 10 ^ 9);
          frac = str_int (n mod 10 ^ 9)
      in (if x < 0 then ''-'' else []) @ str_int (n div 10 ^ 9) @ ''.'' @
         replicate (9 - length frac) (CHR ''0'') @ frac)"

definition rstrip :: "char \<Rightarrow> string \<Rightarrow> string" where
  "rstrip c s = rev (dropWhile (\<lambda>x. x = c) (rev s))"

definition format_sol :: "rat \<Rightarrow> string" where
  "format_sol sol =
     (let text = format_9f sol
      in if CHR ''.'' \<in> set text then rstrip (CHR ''.'') (rstrip (CHR ''0'') text) else text)"

lemma bit_length_nat_numeral_simps:
  "bit_length_nat 0 = 0"
  "bit_length_nat 1 = 1"
  "bit_length_nat (Suc 0) = 1"
  "bit_length_nat 2 = 2"
  "bit_length_nat 3 = 2"
  by (simp_all add: bit_length_nat.simps [of 0] bit_length_nat.simps [of 1]
      bit_length_nat.simps [of "Suc 0"] bit_length_nat.simps [of 2] bit_length_nat.simps [of 3])

lemma quotient_of_one: "quotient_of 1 = (1, 1)"
  by simp

lemma quotient_of_three_halves: "quotient_of (3 / 2) = (3, 2)"
proof -
  have "quotient_of (Fract 3 2) = (3, 2)"
    by (rule quotient_of_Fract [THEN trans]) (simp add: Rat.normalize_def)
  then show ?thesis by (simp add: Fract_of_int_quotient)
qed

lemma floor_log2_one: "floor_log2 1 = 0"
  by (simp add: floor_log2_def quotient_of_one bit_length_nat_numeral_simps pow2_def)

lemma floor_log2_three_halves: "floor_log2 (3 / 2) = 0"
  by (simp add: floor_log2_def quotient_of_three_halves bit_length_nat_numeral_simps pow2_def)


lemma round_half_even_of_int: "round_half_even (of_int n) = n"
  by (simp add: round_half_even_def)

lemma pow2_pos: "0 < pow2 e"
  by (simp add: pow2_def)

lemma round_double_exact:
  assumes "0 < x" and "x / pow2 (max (floor_log2 x - 52) (- 1074)) = of_int m"
    and "x < pow2 1024"
  shows "round_double x = Some x"
proof -
  let ?ex = "max (floor_log2 x - 52) (- 1074)"
  have ax: "\<bar>x\<bar> = x" using assms(1) by simp
  have "of_int m * pow2 ?ex = x"
    using assms(2) pow2_pos [of ?ex] by (simp add: field_simps)
  then have r: "of_int (round_half_even (x / pow2 ?ex)) * pow2 ?ex = x"
    by (simp only: assms(2) round_half_even_of_int)
  have ne: "x \<noteq> 0" "\<not> x < 0" "\<not> pow2 1024 \<le> x" using assms(1,3) by simp_all
  show ?thesis
    unfolding round_double_def Let_def ax r
    using ne by (simp only: if_False)
qed

lemma round_double_one: "round_double 1 = Some 1"
  by (rule round_double_exact [where m = "2 ^ 52"]) (simp_all add: floor_log2_one pow2_def)

lemma round_double_three_halves: "round_double (3 / 2) = Some (3 / 2)"
  by (rule round_double_exact [where m = "3 * 2 ^ 51"]) (simp_all add: floor_log2_three_halves pow2_def)

lemma lamports_to_sol_one: "lamports_to_sol 1000000000 = Inr 1"
  by (simp add: lamports_to_sol_def round_double_one)

lemma lamports_to_sol_three_halves: "lamports_to_sol 1500000000 = Inr (3 / 2)"
  by (simp add: lamports_to_sol_def round_double_three_halves)

lemma lamports_to_sol_zero: "lamports_to_sol 0 = Inr 0"
  by (simp add: lamports_to_sol_def round_double_def)


lemma scaled_1: "round_half_even (\<bar>1\<bar> * 10 ^ 9) = 1000000000"
proof -
  have "\<bar>1::rat\<bar> * 10 ^ 9 = of_int 1000000000" by simp
  then show ?thesis by (simp only: round_half_even_of_int)
qed

lemma scaled_32: "round_half_even (\<bar>3 / 2\<bar> * 10 ^ 9) = 1500000000"
proof -
  have "\<bar>3 / 2 :: rat\<bar> * 10 ^ 9 = of_int 1500000000" by simp
  then show ?thesis by (simp only: round_half_even_of_int)
qed

lemma scaled_0: "round_half_even (\<bar>0\<bar> * 10 ^ 9) = 0"
  by (simp add: round_half_even_def)

lemma replicate_8: "replicate 8 c = [c, c, c, c, c, c, c, c]"
  by (simp add: numeral_eq_Suc)

lemma format_9f_one: "format_9f 1 = ''1.000000000''"
  unfolding format_9f_def Let_def scaled_1
  by (simp add: str_int_def nat_digits.simps replicate_8)

lemma format_9f_three_halves: "format_9f (3 / 2) = ''1.500000000''"
  unfolding format_9f_def Let_def scaled_32
  by (simp add: str_int_def nat_digits.simps replicate_8)

lemma format_9f_zero: "format_9f 0 = ''0.000000000''"
  unfolding format_9f_def Let_def scaled_0
  by (simp add: str_int_def nat_digits.simps replicate_8)

lemma format_sol_one: "format_sol 1 = ''1''"
  by (simp add: format_sol_def format_9f_one rstrip_def)

lemma format_sol_three_halves: "format_sol (3 / 2) = ''1.5''"
  by (simp add: format_sol_def format_9f_three_halves rstrip_def)

lemma format_sol_zero: "format_sol 0 = ''0''"
  by (simp add: format_sol_def format_9f_zero rstrip_def)


text \<open>
  The display value that the human report prints for a balance (line 215):
  \<open>format_sol(lamports_to_sol(sol_lamports))\<close>.
\<close>

definition display_sol :: "int \<Rightarrow> py_exn + string" where
  "display_sol lamports =
     (case lamports_to_sol lamports of Inl exc \<Rightarrow> Inl exc | Inr sol \<Rightarrow> Inr (format_sol sol))"

text \<open>
  C9. The conversion maps 1_000_000_000 lamports to "1", 1_500_000_000 lamports to "1.5" and
  0 lamports to "0".
\<close>

theorem lamports_display_examples:
  "display_sol 1000000000 = Inr ''1'' \<and>
   display_sol 1500000000 = Inr ''1.5'' \<and>
   display_sol 0 = Inr ''0''"
  by (simp add: display_sol_def lamports_to_sol_one lamports_to_sol_three_halves
      lamports_to_sol_zero format_sol_one format_sol_three_halves format_sol_zero)

section \<open>The response decoders\<close>

subsection \<open>\<open>int(x)\<close> and iteration\<close>

text \<open>Sequencing of computations that may raise.\<close>

definition exn_bind :: "py_exn + 'a \<Rightarrow> ('a \<Rightarrow> py_exn + 'b) \<Rightarrow> py_exn + 'b" where
  "exn_bind m f = (case m of Inl exc \<Rightarrow> Inl exc | Inr x \<Rightarrow> f x)"

text \<open>
  \<open>int(s)\<close> for a string. Surrounding whitespace is stripped and a sign may come first. The
  digits, which may be grouped by single underscores, are scanned and counted; more than 4300
  of them exceed the interpreter's limit for such a conversion; anything left after them
  makes the literal invalid. Whitespace is what \<open>int\<close> skips: tab, line feed, vertical tab,
  form feed, carriage return, space, and the code points 133 and 160.
\<close>

definition py_isspace :: "char \<Rightarrow> bool" where
  "py_isspace c = ((of_char c :: nat) \<in> {9, 10, 11, 12, 13, 32, 133, 160})"

definition strip :: "string \<Rightarrow> string" where
  "strip s = rev (dropWhile py_isspace (rev (dropWhile py_isspace s)))"

definition digit_val :: "char \<Rightarrow> nat option" where
  "digit_val c =
     (let n = (of_char c :: nat) in if 48 \<le> n \<and> n \<le> 57 then Some (n - 48) else None)"

definition digit_or_underscore :: "char \<Rightarrow> bool" where
  "digit_or_underscore c = (c = CHR ''_'' \<or> digit_val c \<noteq> None)"

text \<open>The value and the number of the digits of a run of digits and underscores.\<close>

fun scan_digits :: "string \<Rightarrow> nat \<Rightarrow> nat \<Rightarrow> bool \<Rightarrow> (nat \<times> nat) option" where
  "scan_digits [] acc n after_digit = (if after_digit then Some (acc, n) else None)"
| "scan_digits (c # cs) acc n after_digit =
     (if c = CHR ''_'' then (if after_digit then scan_digits cs acc n False else None)
      else (case digit_val c of
              None \<Rightarrow> None
            | Some d \<Rightarrow> scan_digits cs (acc * 10 + d) (Suc n) True))"

definition MAX_STR_DIGITS :: nat where
  "MAX_STR_DIGITS = 4300"

definition invalid_literal :: "string \<Rightarrow> py_exn" where
  "invalid_literal s = ValueError (''invalid literal for int() with base 10: '' @ repr_str s)"

definition exceeds_limit :: "nat \<Rightarrow> py_exn" where
  "exceeds_limit n =
     ValueError (''Exceeds the limit (4300 digits) for integer string conversion: value has '' @
                 str_int (int n) @
                 '' digits; use sys.set_int_max_str_digits() to increase the limit'')"

definition int_of_str :: "string \<Rightarrow> py_exn + int" where
  "int_of_str s =
     (let t = strip s;
          negative = (t \<noteq> [] \<and> hd t = CHR ''-'');
          body = (if t \<noteq> [] \<and> (hd t = CHR ''-'' \<or> hd t = CHR ''+'') then tl t else t);
          run = takeWhile digit_or_underscore body;
          rest = dropWhile digit_or_underscore body
      in case scan_digits run 0 0 False of
           None \<Rightarrow> Inl (invalid_literal s)
         | Some (v, n) \<Rightarrow>
             if MAX_STR_DIGITS < n then Inl (exceeds_limit n)
             else if rest \<noteq> [] then Inl (invalid_literal s)
             else Inr (if negative then - int v else int v))"

definition trunc :: "rat \<Rightarrow> int" where
  "trunc q = (if 0 \<le> q then \<lfloor>q\<rfloor> else \<lceil>q\<rceil>)"

text \<open>\<open>int(x)\<close> for a float: truncation toward zero; an infinity and NaN have no integer.\<close>

fun float_int :: "pyfloat \<Rightarrow> py_exn + int" where
  "float_int (Finite q) = Inr (trunc q)"
| "float_int NegZero = Inr 0"
| "float_int PosInf = Inl (OverflowError ''cannot convert float infinity to integer'')"
| "float_int NegInf = Inl (OverflowError ''cannot convert float infinity to integer'')"
| "float_int NaN = Inl (ValueError ''cannot convert float NaN to integer'')"

definition int_type_error :: "json \<Rightarrow> py_exn" where
  "int_type_error x =
     TypeError (''int() argument must be a string, a bytes-like object or a real number, not '' @
                [CHR 0x27] @ type_name x @ [CHR 0x27])"

fun py_int :: "json \<Rightarrow> py_exn + int" where
  "py_int (JInt n) = Inr n"
| "py_int (JBool b) = Inr (if b then 1 else 0)"
| "py_int (JFloat x) = float_int x"
| "py_int (JStr s) = int_of_str s"
| "py_int x = Inl (int_type_error x)"

text \<open>
  \<open>for x in value\<close>: a list gives its elements, a dict its keys, a string its characters;
  nothing else can be iterated.
\<close>

fun py_iter :: "json \<Rightarrow> py_exn + json list" where
  "py_iter (JArr xs) = Inr xs"
| "py_iter (JObj kvs) = Inr (map (\<lambda>p. JStr (fst p)) kvs)"
| "py_iter (JStr s) = Inr (map (\<lambda>c. JStr [c]) s)"
| "py_iter x =
     Inl (TypeError ([CHR 0x27] @ type_name x @ [CHR 0x27] @ '' object is not iterable''))"

subsection \<open>\<open>get_balance\<close>\<close>

text \<open>Line 166: \<open>int(result.get("value", 0))\<close>.\<close>

definition balance_of_result :: "json \<Rightarrow> py_exn + int" where
  "balance_of_result result = exn_bind (py_get result ''value'' (JInt 0)) py_int"

definition get_balance ::
  "(rat \<Rightarrow> string) \<Rightarrow> world \<Rightarrow> RPCClient \<Rightarrow> string \<Rightarrow> string \<Rightarrow> event list \<Rightarrow>
   (py_exn + int) \<times> event list" where
  "get_balance fr w client address commitment tr =
     (case request fr w client ''getBalance''
             [JStr address, JObj [(''commitment'', JStr commitment)]] tr of
        (Inl exc, tr') \<Rightarrow> (Inl exc, tr')
      | (Inr result, tr') \<Rightarrow> (balance_of_result result, tr'))"

subsection \<open>\<open>parse_token_accounts\<close> and \<open>get_tokens\<close>\<close>

record token_holding =
  mint :: json
  token_account :: json
  amount_raw :: string
  decimals :: int
  ui_amount :: json

text \<open>
  One pass of the loop body of \<open>parse_token_accounts\<close>: \<open>None\<close> when the record is skipped by
  \<open>continue\<close>, the holding that is appended otherwise.
\<close>

definition parse_token_item :: "(rat \<Rightarrow> string) \<Rightarrow> json \<Rightarrow> py_exn + token_holding option" where
  "parse_token_item fr item =
     exn_bind (py_get item ''pubkey'' JNull) (\<lambda>pubkey.
     exn_bind (py_get item ''account'' (JObj [])) (\<lambda>account.
     exn_bind (py_get account ''data'' (JObj [])) (\<lambda>data.
     exn_bind (py_get data ''parsed'' (JObj [])) (\<lambda>parsed0.
     exn_bind (py_get parsed0 ''info'' (JObj [])) (\<lambda>parsed.
     exn_bind (py_get parsed ''mint'' JNull) (\<lambda>mint.
     exn_bind (py_get parsed ''tokenAmount'' (JObj [])) (\<lambda>token_amount.
     exn_bind (py_get token_amount ''amount'' JNull) (\<lambda>amount_raw.
     exn_bind (py_get token_amount ''decimals'' JNull) (\<lambda>decimals.
     exn_bind (py_get token_amount ''uiAmountString'' JNull) (\<lambda>ui_amount_str.
     exn_bind (if ui_amount_str \<noteq> JNull then Inr ui_amount_str
               else exn_bind (py_get token_amount ''uiAmount'' JNull)
                      (\<lambda>u. Inr (JStr (py_str fr u)))) (\<lambda>ui_amount.
     if \<not> (truthy pubkey \<and> truthy mint \<and> amount_raw \<noteq> JNull \<and> decimals \<noteq> JNull) then Inr None
     else
       exn_bind (py_int decimals) (\<lambda>d.
         Inr (Some \<lparr>mint = mint, token_account = pubkey, amount_raw = py_str fr amount_raw,
                     decimals = d, ui_amount = ui_amount\<rparr>)))))))))))))"

fun parse_token_loop ::
  "(rat \<Rightarrow> string) \<Rightarrow> json list \<Rightarrow> token_holding list \<Rightarrow> py_exn + token_holding list" where
  "parse_token_loop fr [] tokens = Inr tokens"
| "parse_token_loop fr (item # rest) tokens =
     (case parse_token_item fr item of
        Inl exc \<Rightarrow> Inl exc
      | Inr None \<Rightarrow> parse_token_loop fr rest tokens
      | Inr (Some holding) \<Rightarrow> parse_token_loop fr rest (tokens @ [holding]))"

definition parse_token_accounts :: "(rat \<Rightarrow> string) \<Rightarrow> json \<Rightarrow> py_exn + token_holding list" where
  "parse_token_accounts fr value = exn_bind (py_iter value) (\<lambda>items. parse_token_loop fr items [])"

definition TOKEN_PROGRAM_ID :: string where
  "TOKEN_PROGRAM_ID = ''TokenkegQfeZyiNwAJbNbGKPFXCWuBvf9Ss623VQ5DA''"

definition get_tokens ::
  "(rat \<Rightarrow> string) \<Rightarrow> world \<Rightarrow> RPCClient \<Rightarrow> string \<Rightarrow> string \<Rightarrow> event list \<Rightarrow>
   (py_exn + token_holding list) \<times> event list" where
  "get_tokens fr w client address commitment tr =
     (case request fr w client ''getTokenAccountsByOwner''
             [JStr address, JObj [(''programId'', JStr TOKEN_PROGRAM_ID)],
              JObj [(''encoding'', JStr ''jsonParsed''), (''commitment'', JStr commitment)]] tr of
        (Inl exc, tr') \<Rightarrow> (Inl exc, tr')
      | (Inr result, tr') \<Rightarrow>
          (exn_bind (py_get result ''value'' (JArr [])) (parse_token_accounts fr), tr'))"

subsection \<open>The balance decoder\<close>

lemma floor_three_halves: "\<lfloor>3 / 2 :: rat\<rfloor> = 1"
  by (rule floor_unique) simp_all

lemma int_of_str_value_error: "isl (int_of_str s) \<Longrightarrow> \<exists>m. int_of_str s = Inl (ValueError m)"
  by (auto simp: int_of_str_def Let_def invalid_literal_def exceeds_limit_def
      split: option.splits if_splits)

lemma digit_val_7: "digit_val (CHR ''7'') = Some 7"
  by (simp add: digit_val_def)

lemma scan_digits_sevens:
  "\<exists>v. scan_digits (replicate k (CHR ''7'')) acc n True = Some (v, n + k)"
proof (induction k arbitrary: acc n)
  case 0
  then show ?case by simp
next
  case (Suc k)
  from Suc [of "acc * 10 + 7" "Suc n"] obtain v where
    "scan_digits (replicate k (CHR ''7'')) (acc * 10 + 7) (Suc n) True = Some (v, Suc n + k)"
    by blast
  then show ?case by (simp add: digit_val_7)
qed

text \<open>A string of 4301 digits spells an integer, and \<open>int\<close> refuses it.\<close>

lemma int_of_str_digit_limit:
  "int_of_str (CHR ''7'' # replicate 4300 (CHR ''7'')) = Inl (exceeds_limit 4301)"
proof -
  let ?r = "replicate 4300 (CHR ''7'')"
  let ?s = "CHR ''7'' # ?r"
  have nsp: "\<not> py_isspace (CHR ''7'')" by (simp add: py_isspace_def)
  have d: "digit_or_underscore (CHR ''7'')" by (simp add: digit_or_underscore_def digit_val_7)
  have rv: "rev ?s = ?r @ [CHR ''7'']" by simp
  have "dropWhile py_isspace (rev ?s) = rev ?s"
    unfolding rv using nsp by (simp add: dropWhile_append3)
  then have st: "strip ?s = ?s" using nsp by (simp add: strip_def)
  have tw: "takeWhile digit_or_underscore ?s = ?s"
    using d by (simp add: takeWhile_eq_all_conv)
  then have dw: "dropWhile digit_or_underscore ?s = []"
    using d by simp
  from scan_digits_sevens [of 4300 7 1] obtain v where
    "scan_digits ?r 7 1 True = Some (v, 1 + 4300)" by blast
  then have sc: "scan_digits ?s 0 0 False = Some (v, 4301)"
    by (simp add: digit_val_7)
  show ?thesis
    unfolding int_of_str_def Let_def st
    by (simp add: tw sc MAX_STR_DIGITS_def del: takeWhile.simps dropWhile.simps scan_digits.simps)
qed

text \<open>
  C7 as stated fails: the source applies \<open>int\<close> to whatever the value field holds and checks
  nothing. A present negative value is returned as it is, and a present float is truncated.
\<close>

theorem balance_negative_counterexample:
  "balance_of_result (JObj [(''context'', JObj [(''slot'', JInt 1)]), (''value'', JInt (- 5))]) =
     Inr (- 5) \<and>
   balance_of_result (JObj [(''value'', JFloat (Finite (3 / 2)))]) = Inr 1"
  by (simp add: balance_of_result_def exn_bind_def trunc_def floor_three_halves)

text \<open>
  C7, amended. For a result payload that is an object, the decoder returns \<open>int(value)\<close> and
  checks neither sign nor range: it returns 0 when the value field is missing; it returns a
  present integer unchanged, also a negative one, a present boolean as 0 or 1, a present
  finite float truncated toward zero, and a present string as the integer it spells. It raises
  \<open>OverflowError\<close> for an infinite float, \<open>ValueError\<close> for NaN and for a string that spells
  no integer or has more than 4300 digits, and \<open>TypeError\<close> when the field is null, an array or
  an object. A payload that is not an object raises \<open>AttributeError\<close>.
\<close>

theorem balance_of_result_cases:
  "(map_of kvs ''value'' = None \<longrightarrow> balance_of_result (JObj kvs) = Inr 0) \<and>
   (\<forall>n. map_of kvs ''value'' = Some (JInt n) \<longrightarrow> balance_of_result (JObj kvs) = Inr n) \<and>
   (\<forall>b. map_of kvs ''value'' = Some (JBool b) \<longrightarrow>
        balance_of_result (JObj kvs) = Inr (if b then 1 else 0)) \<and>
   (\<forall>q. map_of kvs ''value'' = Some (JFloat (Finite q)) \<longrightarrow>
        balance_of_result (JObj kvs) = Inr (if 0 \<le> q then \<lfloor>q\<rfloor> else \<lceil>q\<rceil>)) \<and>
   (map_of kvs ''value'' = Some (JFloat NegZero) \<longrightarrow> balance_of_result (JObj kvs) = Inr 0) \<and>
   (\<forall>x. map_of kvs ''value'' = Some (JFloat x) \<and> (x = PosInf \<or> x = NegInf) \<longrightarrow>
        (\<exists>m. balance_of_result (JObj kvs) = Inl (OverflowError m))) \<and>
   (map_of kvs ''value'' = Some (JFloat NaN) \<longrightarrow>
        (\<exists>m. balance_of_result (JObj kvs) = Inl (ValueError m))) \<and>
   (\<forall>s. map_of kvs ''value'' = Some (JStr s) \<longrightarrow>
        balance_of_result (JObj kvs) = int_of_str s \<and>
        (isl (int_of_str s) \<longrightarrow> (\<exists>m. int_of_str s = Inl (ValueError m)))) \<and>
   (\<forall>v. map_of kvs ''value'' = Some v \<and> (v = JNull \<or> (\<exists>xs. v = JArr xs) \<or> (\<exists>ys. v = JObj ys)) \<longrightarrow>
        (\<exists>m. balance_of_result (JObj kvs) = Inl (TypeError m))) \<and>
   (\<forall>x. (\<forall>ys. x \<noteq> JObj ys) \<longrightarrow> (\<exists>m. balance_of_result x = Inl (AttributeError m)))"
proof (intro conjI allI impI)
  assume "map_of kvs ''value'' = None"
  then show "balance_of_result (JObj kvs) = Inr 0"
    by (simp add: balance_of_result_def exn_bind_def)
next
  fix n assume "map_of kvs ''value'' = Some (JInt n)"
  then show "balance_of_result (JObj kvs) = Inr n"
    by (simp add: balance_of_result_def exn_bind_def)
next
  fix b assume "map_of kvs ''value'' = Some (JBool b)"
  then show "balance_of_result (JObj kvs) = Inr (if b then 1 else 0)"
    by (simp add: balance_of_result_def exn_bind_def)
next
  fix q assume "map_of kvs ''value'' = Some (JFloat (Finite q))"
  then show "balance_of_result (JObj kvs) = Inr (if 0 \<le> q then \<lfloor>q\<rfloor> else \<lceil>q\<rceil>)"
    by (simp add: balance_of_result_def exn_bind_def trunc_def)
next
  assume "map_of kvs ''value'' = Some (JFloat NegZero)"
  then show "balance_of_result (JObj kvs) = Inr 0"
    by (simp add: balance_of_result_def exn_bind_def)
next
  fix x assume "map_of kvs ''value'' = Some (JFloat x) \<and> (x = PosInf \<or> x = NegInf)"
  then show "\<exists>m. balance_of_result (JObj kvs) = Inl (OverflowError m)"
    by (auto simp: balance_of_result_def exn_bind_def)
next
  assume "map_of kvs ''value'' = Some (JFloat NaN)"
  then show "\<exists>m. balance_of_result (JObj kvs) = Inl (ValueError m)"
    by (simp add: balance_of_result_def exn_bind_def)
next
  fix s assume "map_of kvs ''value'' = Some (JStr s)"
  then show "balance_of_result (JObj kvs) = int_of_str s"
    by (simp add: balance_of_result_def exn_bind_def)
next
  fix s assume "isl (int_of_str s)"
  then show "\<exists>m. int_of_str s = Inl (ValueError m)"
    by (rule int_of_str_value_error)
next
  fix v
  assume a: "map_of kvs ''value'' = Some v \<and> (v = JNull \<or> (\<exists>xs. v = JArr xs) \<or> (\<exists>ys. v = JObj ys))"
  then have "\<exists>m. py_int v = Inl (TypeError m)"
    by (cases v) (simp_all add: int_type_error_def)
  with a show "\<exists>m. balance_of_result (JObj kvs) = Inl (TypeError m)"
    by (simp add: balance_of_result_def exn_bind_def)
next
  fix x :: json
  assume "\<forall>ys. x \<noteq> JObj ys"
  then show "\<exists>m. balance_of_result x = Inl (AttributeError m)"
    by (cases x) (simp_all add: balance_of_result_def exn_bind_def)
qed

theorem balance_of_result_cases_witness:
  "map_of [(''context'', JObj [(''slot'', JInt 1)])] ''value'' = None \<and>
   balance_of_result (JObj [(''context'', JObj [(''slot'', JInt 1)])]) = Inr 0 \<and>
   map_of [(''value'', JInt 5000000000)] ''value'' = Some (JInt 5000000000) \<and>
   balance_of_result (JObj [(''value'', JInt 5000000000)]) = Inr 5000000000 \<and>
   (\<exists>m. balance_of_result (JObj [(''value'', JFloat PosInf)]) = Inl (OverflowError m)) \<and>
   (\<exists>m. balance_of_result (JObj [(''value'', JFloat NaN)]) = Inl (ValueError m)) \<and>
   (\<exists>m. balance_of_result (JObj [(''value'', JNull)]) = Inl (TypeError m)) \<and>
   (\<exists>m. balance_of_result (JArr []) = Inl (AttributeError m))"
proof -
  note cs = balance_of_result_cases
  have a: "map_of [(''context'', JObj [(''slot'', JInt 1)])] ''value'' = None" by simp
  have b: "map_of [(''value'', JInt 5000000000)] ''value'' = Some (JInt 5000000000)" by simp
  have i: "map_of [(''value'', JFloat PosInf)] ''value'' = Some (JFloat PosInf) \<and>
      (PosInf = PosInf \<or> PosInf = NegInf)" by simp
  have n: "map_of [(''value'', JFloat NaN)] ''value'' = Some (JFloat NaN)" by simp
  have c: "map_of [(''value'', JNull)] ''value'' = Some JNull \<and>
      (JNull = JNull \<or> (\<exists>xs. JNull = JArr xs) \<or> (\<exists>ys. JNull = JObj ys))" by simp
  have d: "\<forall>ys. JArr [] \<noteq> JObj ys" by simp
  have r1: "balance_of_result (JObj [(''context'', JObj [(''slot'', JInt 1)])]) = Inr 0"
    by (rule mp [OF cs [THEN conjunct1] a])
  have r2: "balance_of_result (JObj [(''value'', JInt 5000000000)]) = Inr 5000000000"
    by (rule cs [THEN conjunct2, THEN conjunct1, rule_format, OF b])
  have r3: "\<exists>m. balance_of_result (JObj [(''value'', JFloat PosInf)]) = Inl (OverflowError m)"
    by (rule cs [THEN conjunct2, THEN conjunct2, THEN conjunct2, THEN conjunct2, THEN conjunct2,
          THEN conjunct1, THEN spec, THEN mp, OF i])
  have r4: "\<exists>m. balance_of_result (JObj [(''value'', JFloat NaN)]) = Inl (ValueError m)"
    by (rule cs [THEN conjunct2, THEN conjunct2, THEN conjunct2, THEN conjunct2, THEN conjunct2,
          THEN conjunct2, THEN conjunct1, THEN mp, OF n])
  have r5: "\<exists>m. balance_of_result (JObj [(''value'', JNull)]) = Inl (TypeError m)"
    by (rule cs [THEN conjunct2, THEN conjunct2, THEN conjunct2, THEN conjunct2, THEN conjunct2,
          THEN conjunct2, THEN conjunct2, THEN conjunct2, THEN conjunct1, THEN spec, THEN mp, OF c])
  have r6: "\<exists>m. balance_of_result (JArr []) = Inl (AttributeError m)"
    by (rule cs [THEN conjunct2, THEN conjunct2, THEN conjunct2, THEN conjunct2, THEN conjunct2,
          THEN conjunct2, THEN conjunct2, THEN conjunct2, THEN conjunct2, THEN spec, THEN mp, OF d])
  from a b r1 r2 r3 r4 r5 r6 show ?thesis by (intro conjI)
qed

subsection \<open>The token decoder\<close>

text \<open>
  Reading a record as the specification does. \<open>field path j\<close> follows the keys of \<open>path\<close>
  through nested objects and is null when a key is absent; \<open>shaped path j\<close> says that \<open>j\<close> and
  every value met on the way along \<open>path\<close> is an object.
\<close>

fun field :: "string list \<Rightarrow> json \<Rightarrow> json" where
  "field [] j = j"
| "field (k # ks) j =
     (case j of
        JObj kvs \<Rightarrow> (case map_of kvs k of None \<Rightarrow> JNull | Some v \<Rightarrow> field ks v)
      | _ \<Rightarrow> JNull)"

fun is_obj :: "json \<Rightarrow> bool" where
  "is_obj (JObj kvs) = True"
| "is_obj j = False"

fun shaped :: "string list \<Rightarrow> json \<Rightarrow> bool" where
  "shaped [] j = is_obj j"
| "shaped (k # ks) j =
     (case j of
        JObj kvs \<Rightarrow> (case map_of kvs k of None \<Rightarrow> True | Some v \<Rightarrow> shaped ks v)
      | _ \<Rightarrow> False)"

definition info_path :: "string list" where
  "info_path = [''account'', ''data'', ''parsed'', ''info'']"

definition well_shaped :: "json \<Rightarrow> bool" where
  "well_shaped item = shaped (info_path @ [''tokenAmount'']) item"

definition rec_pubkey :: "json \<Rightarrow> json" where
  "rec_pubkey item = field [''pubkey''] item"

definition rec_mint :: "json \<Rightarrow> json" where
  "rec_mint item = field (info_path @ [''mint'']) item"

definition rec_amount :: "json \<Rightarrow> json" where
  "rec_amount item = field (info_path @ [''tokenAmount'', ''amount'']) item"

definition rec_decimals :: "json \<Rightarrow> json" where
  "rec_decimals item = field (info_path @ [''tokenAmount'', ''decimals'']) item"

definition rec_ui_amount :: "(rat \<Rightarrow> string) \<Rightarrow> json \<Rightarrow> json" where
  "rec_ui_amount fr item =
     (if field (info_path @ [''tokenAmount'', ''uiAmountString'']) item \<noteq> JNull
      then field (info_path @ [''tokenAmount'', ''uiAmountString'']) item
      else JStr (py_str fr (field (info_path @ [''tokenAmount'', ''uiAmount'']) item)))"

text \<open>The records that the source keeps.\<close>

definition complete_record :: "json \<Rightarrow> bool" where
  "complete_record item =
     (truthy (rec_pubkey item) \<and> truthy (rec_mint item) \<and> rec_amount item \<noteq> JNull \<and>
      rec_decimals item \<noteq> JNull)"

lemma py_get_shaped:
  assumes "shaped (k # ks) j"
  shows "\<exists>j'. py_get j k (JObj []) = Inr j' \<and> shaped ks j' \<and>
              (\<forall>p ps. field (k # p # ps) j = field (p # ps) j')"
proof -
  from assms obtain kvs where j: "j = JObj kvs" by (cases j) auto
  show ?thesis
  proof (cases "map_of kvs k")
    case None
    have "shaped ks (JObj [])" by (cases ks) auto
    with None j show ?thesis by simp
  next
    case (Some v)
    with assms j show ?thesis by simp
  qed
qed

lemma py_get_field:
  assumes "is_obj j"
  shows "py_get j k JNull = Inr (field [k] j)"
  using assms by (cases j) (auto split: option.splits)

lemma parse_token_item_well_shaped:
  assumes "well_shaped item"
  shows "parse_token_item fr item =
     (if \<not> complete_record item then Inr None
      else exn_bind (py_int (rec_decimals item)) (\<lambda>d.
        Inr (Some \<lparr>mint = rec_mint item, token_account = rec_pubkey item,
                    amount_raw = py_str fr (rec_amount item), decimals = d,
                    ui_amount = rec_ui_amount fr item\<rparr>)))"
proof -
  from assms have s0: "shaped (''account'' # [''data'', ''parsed'', ''info'', ''tokenAmount'']) item"
    by (simp add: well_shaped_def info_path_def)
  then have obj: "is_obj item" by (cases item) auto
  from py_get_shaped [OF s0] obtain account where
    a: "py_get item ''account'' (JObj []) = Inr account"
    and sa: "shaped (''data'' # [''parsed'', ''info'', ''tokenAmount'']) account"
    and fa: "\<And>p ps. field (''account'' # p # ps) item = field (p # ps) account" by blast
  from py_get_shaped [OF sa] obtain data where
    d: "py_get account ''data'' (JObj []) = Inr data"
    and sd: "shaped (''parsed'' # [''info'', ''tokenAmount'']) data"
    and fd: "\<And>p ps. field (''data'' # p # ps) account = field (p # ps) data" by blast
  from py_get_shaped [OF sd] obtain parsed0 where
    p0: "py_get data ''parsed'' (JObj []) = Inr parsed0"
    and sp0: "shaped (''info'' # [''tokenAmount'']) parsed0"
    and fp0: "\<And>p ps. field (''parsed'' # p # ps) data = field (p # ps) parsed0" by blast
  from py_get_shaped [OF sp0] obtain parsed where
    p: "py_get parsed0 ''info'' (JObj []) = Inr parsed"
    and sp: "shaped (''tokenAmount'' # []) parsed"
    and fp: "\<And>p ps. field (''info'' # p # ps) parsed0 = field (p # ps) parsed" by blast
  from sp have objp: "is_obj parsed" by (cases parsed) auto
  from py_get_shaped [OF sp] obtain token_amount where
    t: "py_get parsed ''tokenAmount'' (JObj []) = Inr token_amount"
    and st: "shaped [] token_amount"
    and ft: "\<And>p ps. field (''tokenAmount'' # p # ps) parsed = field (p # ps) token_amount" by blast
  from st have objt: "is_obj token_amount" by simp
  have path: "field (info_path @ p # ps) item = field (p # ps) parsed" for p ps
    by (simp only: info_path_def append_Cons append_Nil fa fd fp0 fp)
  have path_t: "field (info_path @ [''tokenAmount'', x]) item = field [x] token_amount" for x
    using path [of "''tokenAmount''" "[x]"] ft [of x "[]"] by simp
  have mint: "rec_mint item = field [''mint''] parsed"
    using path [of "''mint''" "[]"] by (simp add: rec_mint_def)
  have ui: "rec_ui_amount fr item =
     (if field [''uiAmountString''] token_amount \<noteq> JNull
      then field [''uiAmountString''] token_amount
      else JStr (py_str fr (field [''uiAmount''] token_amount)))"
    by (simp only: rec_ui_amount_def path_t)
  have amt: "rec_amount item = field [''amount''] token_amount"
    by (simp only: rec_amount_def path_t)
  have dec: "rec_decimals item = field [''decimals''] token_amount"
    by (simp only: rec_decimals_def path_t)
  show ?thesis
    unfolding parse_token_item_def
    by (simp add: exn_bind_def py_get_field [OF obj] py_get_field [OF objp] py_get_field [OF objt]
        a d p0 p t complete_record_def rec_pubkey_def mint amt dec ui del: field.simps)
qed


lemma parse_token_loop_complete:
  assumes "\<forall>item\<in>set items. well_shaped item \<and> (complete_record item \<longrightarrow> \<not> isl (py_int (rec_decimals item)))"
  shows "\<exists>hs. parse_token_loop fr items acc = Inr (acc @ hs) \<and>
           map token_account hs = map rec_pubkey (filter complete_record items) \<and>
           map mint hs = map rec_mint (filter complete_record items) \<and>
           map amount_raw hs = map (\<lambda>item. py_str fr (rec_amount item)) (filter complete_record items) \<and>
           map (\<lambda>h. Inr (decimals h)) hs = map (\<lambda>item. py_int (rec_decimals item)) (filter complete_record items) \<and>
           map ui_amount hs = map (rec_ui_amount fr) (filter complete_record items)"
  using assms
proof (induction items arbitrary: acc)
  case Nil
  then show ?case by simp
next
  case (Cons item rest)
  then have ws: "well_shaped item"
    and conv: "complete_record item \<longrightarrow> \<not> isl (py_int (rec_decimals item))"
    and rest: "\<forall>item\<in>set rest. well_shaped item \<and> (complete_record item \<longrightarrow> \<not> isl (py_int (rec_decimals item)))"
    by simp_all
  show ?case
  proof (cases "complete_record item")
    case False
    then have "parse_token_item fr item = Inr None"
      by (simp add: parse_token_item_well_shaped [OF ws])
    with Cons.IH [OF rest, of acc] False show ?thesis by simp
  next
    case True
    with conv obtain d where d: "py_int (rec_decimals item) = Inr d"
      by (cases "py_int (rec_decimals item)") auto
    let ?h = "\<lparr>mint = rec_mint item, token_account = rec_pubkey item,
                amount_raw = py_str fr (rec_amount item), decimals = d,
                ui_amount = rec_ui_amount fr item\<rparr>"
    have item: "parse_token_item fr item = Inr (Some ?h)"
      using True d by (simp add: parse_token_item_well_shaped [OF ws] exn_bind_def)
    from Cons.IH [OF rest, of "acc @ [?h]"] obtain hs where
      run: "parse_token_loop fr rest (acc @ [?h]) = Inr ((acc @ [?h]) @ hs)"
      and m1: "map token_account hs = map rec_pubkey (filter complete_record rest)"
      and m2: "map mint hs = map rec_mint (filter complete_record rest)"
      and m3: "map amount_raw hs = map (\<lambda>item. py_str fr (rec_amount item)) (filter complete_record rest)"
      and m4: "map (\<lambda>h. Inr (decimals h)) hs = map (\<lambda>item. py_int (rec_decimals item)) (filter complete_record rest)"
      and m5: "map ui_amount hs = map (rec_ui_amount fr) (filter complete_record rest)"
      by blast
    have "parse_token_loop fr (item # rest) acc = Inr (acc @ (?h # hs))"
      using item run by simp
    moreover have "map token_account (?h # hs) = map rec_pubkey (filter complete_record (item # rest))"
      using True m1 by simp
    moreover have "map mint (?h # hs) = map rec_mint (filter complete_record (item # rest))"
      using True m2 by simp
    moreover have "map amount_raw (?h # hs) =
        map (\<lambda>item. py_str fr (rec_amount item)) (filter complete_record (item # rest))"
      using True m3 by simp
    moreover have "map (\<lambda>h. Inr (decimals h)) (?h # hs) =
        map (\<lambda>item. py_int (rec_decimals item)) (filter complete_record (item # rest))"
      using True m4 d by simp
    moreover have "map ui_amount (?h # hs) = map (rec_ui_amount fr) (filter complete_record (item # rest))"
      using True m5 by simp
    ultimately show ?thesis by blast
  qed
qed


text \<open>Token-account records as the node sends them, for three accounts and one with an empty address.\<close>

definition token_record :: "json \<Rightarrow> json \<Rightarrow> json \<Rightarrow> json" where
  "token_record pubkey mint_address token_amount =
     JObj [(''pubkey'', pubkey),
           (''account'',
            JObj [(''data'',
                   JObj [(''parsed'',
                          JObj [(''info'', JObj [(''mint'', mint_address), (''tokenAmount'', token_amount)]),
                                (''type'', JStr ''account'')]),
                         (''program'', JStr ''spl-token'')]),
                  (''lamports'', JInt 2039280)])]"

definition record_a :: json where
  "record_a = token_record (JStr ''AcctA'') (JStr ''MintA'')
     (JObj [(''amount'', JStr ''123456789012345''), (''decimals'', JInt 6),
            (''uiAmountString'', JStr ''123456789.012345'')])"

definition record_b :: json where
  "record_b = token_record (JStr ''AcctB'') (JStr ''MintB'') (JObj [(''amount'', JStr ''1'')])"

definition record_c :: json where
  "record_c = token_record (JStr ''AcctC'') (JStr ''MintA'')
     (JObj [(''amount'', JStr ''7''), (''decimals'', JInt 0), (''uiAmountString'', JStr ''7'')])"

definition record_empty_pubkey :: json where
  "record_empty_pubkey = token_record (JStr []) (JStr ''MintA'')
     (JObj [(''amount'', JStr ''5''), (''decimals'', JInt 6), (''uiAmountString'', JStr ''0.000005'')])"

lemma token_record_fields:
  "well_shaped (token_record pk m (JObj ta))"
  "rec_pubkey (token_record pk m (JObj ta)) = pk"
  "rec_mint (token_record pk m (JObj ta)) = m"
  "rec_amount (token_record pk m (JObj ta)) = (case map_of ta ''amount'' of None \<Rightarrow> JNull | Some v \<Rightarrow> v)"
  "rec_decimals (token_record pk m (JObj ta)) = (case map_of ta ''decimals'' of None \<Rightarrow> JNull | Some v \<Rightarrow> v)"
  by (simp_all add: token_record_def well_shaped_def info_path_def rec_pubkey_def rec_mint_def
      rec_amount_def rec_decimals_def split: option.splits)

text \<open>
  The source keeps a record only if \<open>pubkey and mint\<close> are true in Python's sense. A record
  whose four fields are all present, with the empty string as its address, is dropped.
\<close>

lemma parse_token_accounts_empty_pubkey:
  "rec_pubkey record_empty_pubkey = JStr [] \<and>
   rec_mint record_empty_pubkey = JStr ''MintA'' \<and>
   rec_amount record_empty_pubkey = JStr ''5'' \<and>
   rec_decimals record_empty_pubkey = JInt 6 \<and>
   parse_token_accounts demo_fr (JArr [record_empty_pubkey]) = Inr []"
proof -
  have ws: "well_shaped record_empty_pubkey"
    by (simp add: record_empty_pubkey_def token_record_fields)
  have nc: "\<not> complete_record record_empty_pubkey"
    by (simp add: complete_record_def record_empty_pubkey_def token_record_fields)
  have "parse_token_item demo_fr record_empty_pubkey = Inr None"
    using nc by (simp add: parse_token_item_well_shaped [OF ws])
  then have "parse_token_accounts demo_fr (JArr [record_empty_pubkey]) = Inr []"
    by (simp add: parse_token_accounts_def exn_bind_def)
  then show ?thesis
    by (simp add: record_empty_pubkey_def token_record_fields)
qed

text \<open>
  What the decoder does where it does not raise. For a sequence of records in which every
  level of account / data / parsed / info / tokenAmount that is present is an object, and in
  which \<open>int\<close> accepts the decimals of every kept record, it emits one holding for each record
  whose address and mint are true in Python's sense and whose raw amount and decimals are not
  null, in input order, and drops every other record. The holding carries the record's
  address and mint, \<open>int(decimals)\<close>, and as \<open>amount_raw\<close> the text \<open>str(amount)\<close>: the string
  itself when the raw amount is a string, its decimal digits when it is an integer.
\<close>

lemma parse_token_accounts_complete_records:
  assumes "\<forall>item\<in>set items. well_shaped item \<and> (complete_record item \<longrightarrow> \<not> isl (py_int (rec_decimals item)))"
  shows "\<exists>hs. parse_token_accounts fr (JArr items) = Inr hs \<and>
           map token_account hs = map rec_pubkey (filter complete_record items) \<and>
           map mint hs = map rec_mint (filter complete_record items) \<and>
           map (\<lambda>h. Inr (decimals h)) hs = map (\<lambda>item. py_int (rec_decimals item)) (filter complete_record items) \<and>
           map amount_raw hs = map (\<lambda>item. py_str fr (rec_amount item)) (filter complete_record items) \<and>
           (\<forall>i<length hs.
              (\<forall>s. rec_amount (filter complete_record items ! i) = JStr s \<longrightarrow> amount_raw (hs ! i) = s) \<and>
              (\<forall>n. rec_amount (filter complete_record items ! i) = JInt n \<longrightarrow> amount_raw (hs ! i) = str_int n))"
proof -
  from parse_token_loop_complete [OF assms, of fr "[]"] obtain hs where
    run: "parse_token_loop fr items [] = Inr ([] @ hs)"
    and m1: "map token_account hs = map rec_pubkey (filter complete_record items)"
    and m2: "map mint hs = map rec_mint (filter complete_record items)"
    and m3: "map amount_raw hs = map (\<lambda>item. py_str fr (rec_amount item)) (filter complete_record items)"
    and m4: "map (\<lambda>h. Inr (decimals h)) hs = map (\<lambda>item. py_int (rec_decimals item)) (filter complete_record items)"
    by blast
  have p: "parse_token_accounts fr (JArr items) = Inr hs"
    using run by (simp add: parse_token_accounts_def exn_bind_def)
  have len: "length hs = length (filter complete_record items)"
    using m1 by (rule map_eq_imp_length_eq)
  have nth: "amount_raw (hs ! i) = py_str fr (rec_amount (filter complete_record items ! i))"
    if "i < length hs" for i
  proof -
    have "map amount_raw hs ! i = map (\<lambda>item. py_str fr (rec_amount item)) (filter complete_record items) ! i"
      by (simp only: m3)
    then show ?thesis using that len by simp
  qed
  have prec: "\<forall>i<length hs.
      (\<forall>s. rec_amount (filter complete_record items ! i) = JStr s \<longrightarrow> amount_raw (hs ! i) = s) \<and>
      (\<forall>n. rec_amount (filter complete_record items ! i) = JInt n \<longrightarrow> amount_raw (hs ! i) = str_int n)"
    by (simp add: nth py_str_def)
  from p m1 m2 m4 m3 prec show ?thesis by blast
qed


lemma parse_token_accounts_complete_records_example:
  "well_shaped record_a \<and> well_shaped record_b \<and> well_shaped record_c \<and>
   complete_record record_a \<and> \<not> complete_record record_b \<and> complete_record record_c \<and>
   (\<exists>hs. parse_token_accounts demo_fr (JArr [record_a, record_b, record_c]) = Inr hs \<and>
      map token_account hs = [JStr ''AcctA'', JStr ''AcctC''] \<and>
      map mint hs = [JStr ''MintA'', JStr ''MintA''] \<and>
      map amount_raw hs = [''123456789012345'', ''7''])"
proof -
  have ws: "well_shaped record_a" "well_shaped record_b" "well_shaped record_c"
    by (simp_all add: record_a_def record_b_def record_c_def token_record_fields)
  have c: "complete_record record_a" "\<not> complete_record record_b" "complete_record record_c"
    by (simp_all add: complete_record_def record_a_def record_b_def record_c_def token_record_fields)
  have d: "\<not> isl (py_int (rec_decimals record_a))" "\<not> isl (py_int (rec_decimals record_c))"
    by (simp_all add: record_a_def record_c_def token_record_fields)
  have hyp: "\<forall>item\<in>set [record_a, record_b, record_c].
      well_shaped item \<and> (complete_record item \<longrightarrow> \<not> isl (py_int (rec_decimals item)))"
    using ws c d by simp
  have f: "filter complete_record [record_a, record_b, record_c] = [record_a, record_c]"
    using c by simp
  from parse_token_accounts_complete_records [OF hyp, of demo_fr] obtain hs where
    p: "parse_token_accounts demo_fr (JArr [record_a, record_b, record_c]) = Inr hs"
    and m1: "map token_account hs = map rec_pubkey (filter complete_record [record_a, record_b, record_c])"
    and m2: "map mint hs = map rec_mint (filter complete_record [record_a, record_b, record_c])"
    and m3: "map amount_raw hs =
       map (\<lambda>item. py_str demo_fr (rec_amount item)) (filter complete_record [record_a, record_b, record_c])"
    by blast
  have a1: "map token_account hs = [JStr ''AcctA'', JStr ''AcctC'']"
    unfolding m1 f by (simp add: record_a_def record_c_def token_record_fields)
  have a2: "map mint hs = [JStr ''MintA'', JStr ''MintA'']"
    unfolding m2 f by (simp add: record_a_def record_c_def token_record_fields)
  have a3: "map amount_raw hs = [''123456789012345'', ''7'']"
    unfolding m3 f by (simp add: record_a_def record_c_def token_record_fields py_str_def)
  have ex: "\<exists>hs. parse_token_accounts demo_fr (JArr [record_a, record_b, record_c]) = Inr hs \<and>
      map token_account hs = [JStr ''AcctA'', JStr ''AcctC''] \<and>
      map mint hs = [JStr ''MintA'', JStr ''MintA''] \<and>
      map amount_raw hs = [''123456789012345'', ''7'']"
    by (rule exI [of _ hs]) (simp only: p a1 a2 a3 HOL.simp_thms)
  from ws c ex show ?thesis by (intro conjI)
qed

text \<open>
  Two records that lack the mint, the raw amount and the decimals: one whose account is null,
  one whose account data came back as a base64 pair instead of a parsed object.
\<close>

definition record_null_account :: json where
  "record_null_account = JObj [(''pubkey'', JStr ''AcctN''), (''account'', JNull)]"

definition record_base64_data :: json where
  "record_base64_data =
     JObj [(''pubkey'', JStr ''AcctD''),
           (''account'', JObj [(''data'', JArr [JStr ''AQID'', JStr ''base64'']),
                               (''lamports'', JInt 2039280)])]"

text \<open>
  C5. The specification has records that miss one of the four fields dropped without an
  error, and the \<open>{}\<close> defaults of lines 90 to 95 provide for a level that is absent. A level
  that is present but null, or not an object, is not provided for: \<open>.get\<close> raises
  \<open>AttributeError\<close> on it, and the whole decoding is lost with it, also the holdings of the
  complete records before and after.
\<close>

theorem parse_token_accounts_non_object_level_raises:
  "rec_mint record_null_account = JNull \<and>
   rec_amount record_null_account = JNull \<and>
   rec_decimals record_null_account = JNull \<and>
   parse_token_accounts demo_fr (JArr [record_a, record_null_account, record_c]) =
     Inl (AttributeError ([CHR 0x27] @ ''NoneType'' @ [CHR 0x27] @ '' object has no attribute '' @
                          [CHR 0x27] @ ''get'' @ [CHR 0x27])) \<and>
   rec_mint record_base64_data = JNull \<and>
   parse_token_accounts demo_fr (JArr [record_base64_data]) =
     Inl (AttributeError ([CHR 0x27] @ ''list'' @ [CHR 0x27] @ '' object has no attribute '' @
                          [CHR 0x27] @ ''get'' @ [CHR 0x27]))"
proof -
  have ws: "well_shaped record_a"
    by (simp add: record_a_def token_record_fields)
  have c: "complete_record record_a"
    by (simp add: complete_record_def record_a_def token_record_fields)
  have dec: "py_int (rec_decimals record_a) = Inr 6"
    by (simp add: record_a_def token_record_fields)
  have a: "\<exists>h. parse_token_item demo_fr record_a = Inr (Some h)"
    using c dec by (simp add: parse_token_item_well_shaped [OF ws] exn_bind_def)
  have n: "parse_token_item demo_fr record_null_account =
      Inl (AttributeError ([CHR 0x27] @ ''NoneType'' @ [CHR 0x27] @ '' object has no attribute '' @
                           [CHR 0x27] @ ''get'' @ [CHR 0x27]))"
    by (simp add: parse_token_item_def exn_bind_def record_null_account_def)
  have b: "parse_token_item demo_fr record_base64_data =
      Inl (AttributeError ([CHR 0x27] @ ''list'' @ [CHR 0x27] @ '' object has no attribute '' @
                           [CHR 0x27] @ ''get'' @ [CHR 0x27]))"
    by (simp add: parse_token_item_def exn_bind_def record_base64_data_def)
  have r1: "parse_token_accounts demo_fr (JArr [record_a, record_null_account, record_c]) =
      Inl (AttributeError ([CHR 0x27] @ ''NoneType'' @ [CHR 0x27] @ '' object has no attribute '' @
                           [CHR 0x27] @ ''get'' @ [CHR 0x27]))"
    using a n by (auto simp: parse_token_accounts_def exn_bind_def)
  have r2: "parse_token_accounts demo_fr (JArr [record_base64_data]) =
      Inl (AttributeError ([CHR 0x27] @ ''list'' @ [CHR 0x27] @ '' object has no attribute '' @
                           [CHR 0x27] @ ''get'' @ [CHR 0x27]))"
    using b by (simp add: parse_token_accounts_def exn_bind_def)
  have f: "rec_mint record_null_account = JNull" "rec_amount record_null_account = JNull"
    "rec_decimals record_null_account = JNull" "rec_mint record_base64_data = JNull"
    by (simp_all add: rec_mint_def rec_amount_def rec_decimals_def info_path_def
        record_null_account_def record_base64_data_def)
  from f r1 r2 show ?thesis by (intro conjI)
qed

subsection \<open>\<open>get_signatures\<close>\<close>

text \<open>
  \<open>json.dumps(x, separators=(",", ":"))\<close> with the default \<open>ensure_ascii\<close>: no spaces, and in a
  string every character outside the printable ASCII range is escaped.
\<close>

definition json_escape_char :: "char \<Rightarrow> string" where
  "json_escape_char c =
     (if c = CHR 0x22 then [CHR 0x5C, CHR 0x22]
      else if c = CHR 0x5C then [CHR 0x5C, CHR 0x5C]
      else if c = CHR 0x0A then [CHR 0x5C, CHR ''n'']
      else if c = CHR 0x0D then [CHR 0x5C, CHR ''r'']
      else if c = CHR 0x09 then [CHR 0x5C, CHR ''t'']
      else if c = CHR 0x08 then [CHR 0x5C, CHR ''b'']
      else if c = CHR 0x0C then [CHR 0x5C, CHR ''f'']
      else if (of_char c :: nat) < 32 \<or> 126 < (of_char c :: nat)
        then [CHR 0x5C, CHR ''u'', CHR ''0'', CHR ''0''] @ hex2 c
      else [c])"

definition json_string :: "string \<Rightarrow> string" where
  "json_string s = [CHR 0x22] @ concat (map json_escape_char s) @ [CHR 0x22]"

fun json_dumps :: "(rat \<Rightarrow> string) \<Rightarrow> json \<Rightarrow> string" where
  "json_dumps fr JNull = ''null''"
| "json_dumps fr (JBool b) = (if b then ''true'' else ''false'')"
| "json_dumps fr (JInt n) = str_int n"
| "json_dumps fr (JFloat x) =
     (case x of
        Finite q \<Rightarrow> fr q
      | NegZero \<Rightarrow> ''-0.0''
      | PosInf \<Rightarrow> ''Infinity''
      | NegInf \<Rightarrow> ''-Infinity''
      | NaN \<Rightarrow> ''NaN'')"
| "json_dumps fr (JStr s) = json_string s"
| "json_dumps fr (JArr xs) = ''['' @ join '','' (map (json_dumps fr) xs) @ '']''"
| "json_dumps fr (JObj kvs) =
     ''{'' @ join '','' (map (\<lambda>p. json_string (fst p) @ '':'' @ json_dumps fr (snd p)) kvs) @ ''}''"

text \<open>
  \<open>_err_summary\<close>. Every value that comes out of \<open>response.json()\<close> can be serialised, so the
  \<open>except TypeError\<close> branch is never taken.
\<close>

definition err_summary :: "(rat \<Rightarrow> string) \<Rightarrow> json \<Rightarrow> string" where
  "err_summary fr e = (if e = JNull then [] else json_dumps fr e)"

text \<open>
  \<open>datetime.fromtimestamp(t, tz=timezone.utc).isoformat()\<close>. The date of a day number counted
  from 1970-01-01 in the proleptic Gregorian calendar; \<open>datetime\<close> holds the years 1 to 9999
  and raises outside them.
\<close>

definition civil_from_days :: "int \<Rightarrow> int \<times> int \<times> int" where
  "civil_from_days days =
     (let z = days + 719468;
          era = z div 146097;
          doe = z mod 146097;
          yoe = (doe - doe div 1460 + doe div 36524 - doe div 146096) div 365;
          doy = doe - (365 * yoe + yoe div 4 - yoe div 100);
          mp = (5 * doy + 2) div 153;
          d = doy - (153 * mp + 2) div 5 + 1;
          m = (if mp < 10 then mp + 3 else mp - 9);
          y = yoe + era * 400 + (if m \<le> 2 then 1 else 0)
      in (y, m, d))"

definition zfill :: "nat \<Rightarrow> string \<Rightarrow> string" where
  "zfill n s = replicate (n - length s) (CHR ''0'') @ s"

definition isoformat_utc :: "int \<Rightarrow> int \<Rightarrow> string" where
  "isoformat_utc secs micro =
     (let (y, m, d) = civil_from_days (secs div 86400);
          sod = secs mod 86400
      in zfill 4 (str_int y) @ ''-'' @ zfill 2 (str_int m) @ ''-'' @ zfill 2 (str_int d) @ ''T'' @
         zfill 2 (str_int (sod div 3600)) @ '':'' @ zfill 2 (str_int (sod mod 3600 div 60)) @ '':'' @
         zfill 2 (str_int (sod mod 60)) @
         (if micro \<noteq> 0 then ''.'' @ zfill 6 (str_int micro) else []) @ ''+00:00'')"

definition MIN_TIMESTAMP :: int where
  "MIN_TIMESTAMP = - 62135596800"

definition MAX_TIMESTAMP :: int where
  "MAX_TIMESTAMP = 253402300799"

text \<open>
  What \<open>fromtimestamp\<close> raises for a number of seconds outside the years 1 to 9999, on a
  platform whose \<open>time_t\<close> has 64 bits and whose \<open>int\<close> has 32: the seconds do not fit
  \<open>time_t\<close>; or the year counted from 1900 does not fit the \<open>int\<close> field that \<open>gmtime\<close> fills;
  or the year, read back as an \<open>int\<close>, is outside the range of \<open>datetime\<close>.
\<close>

definition wrap_int32 :: "int \<Rightarrow> int" where
  "wrap_int32 y = (y + 2 ^ 31) mod 2 ^ 32 - 2 ^ 31"

definition timestamp_error :: "int \<Rightarrow> py_exn" where
  "timestamp_error secs =
     (if secs < - (2 ^ 63) \<or> 2 ^ 63 \<le> secs then
        OverflowError ''timestamp out of range for platform time_t''
      else
        (let y = fst (civil_from_days (secs div 86400))
         in if y - 1900 < - (2 ^ 31) \<or> 2 ^ 31 \<le> y - 1900 then
              OSError ''[Errno 75] Value too large for defined data type''
            else ValueError (''year '' @ str_int (wrap_int32 y) @ '' is out of range'')))"

definition fromtimestamp_iso :: "int \<Rightarrow> int \<Rightarrow> py_exn + string" where
  "fromtimestamp_iso secs micro =
     (if secs < MIN_TIMESTAMP \<or> MAX_TIMESTAMP < secs then Inl (timestamp_error secs)
      else Inr (isoformat_utc secs micro))"

text \<open>
  A float is split into its integral part and its fraction; the fraction times \<open>10 ^ 6\<close>, a
  binary64 product, is rounded to an integer, ties to even, and a result of \<open>10 ^ 6\<close> or a
  negative one is carried into the seconds.
\<close>

definition float_timestamp :: "rat \<Rightarrow> int \<times> int" where
  "float_timestamp d =
     (let intpart = trunc d;
          floatpart = (case round_double ((d - of_int intpart) * 10 ^ 6) of
                         Some p \<Rightarrow> p
                       | None \<Rightarrow> 0);
          us = round_half_even floatpart
      in if 10 ^ 6 \<le> us then (intpart + 1, us - 10 ^ 6)
         else if us < 0 then (intpart - 1, us + 10 ^ 6)
         else (intpart, us))"

text \<open>
  \<open>_iso_time_from_blocktime\<close>. An integer (or boolean) is a number of seconds; a float is
  rounded to microseconds; an infinity does not fit \<open>time_t\<close>; anything else is not a number.
\<close>

fun iso_time_from_blocktime :: "json \<Rightarrow> py_exn + string" where
  "iso_time_from_blocktime JNull = Inr ''N/A''"
| "iso_time_from_blocktime (JInt n) = fromtimestamp_iso n 0"
| "iso_time_from_blocktime (JBool b) = fromtimestamp_iso (if b then 1 else 0) 0"
| "iso_time_from_blocktime (JFloat x) =
     (case x of
        Finite q \<Rightarrow> (let (secs, us) = float_timestamp q in fromtimestamp_iso secs us)
      | NegZero \<Rightarrow> fromtimestamp_iso 0 0
      | PosInf \<Rightarrow> Inl (OverflowError ''timestamp out of range for platform time_t'')
      | NegInf \<Rightarrow> Inl (OverflowError ''timestamp out of range for platform time_t'')
      | NaN \<Rightarrow> Inl (ValueError ''Invalid value NaN (not a number)''))"
| "iso_time_from_blocktime x =
     Inl (TypeError ([CHR 0x27] @ type_name x @ [CHR 0x27] @
                     '' object cannot be interpreted as an integer''))"

record tx_summary =
  signature :: json
  block_time :: string
  confirmation_status :: json
  err :: string

text \<open>The dict built for one entry (lines 194 to 199), its values in the order written.\<close>

definition signature_item :: "(rat \<Rightarrow> string) \<Rightarrow> json \<Rightarrow> py_exn + tx_summary" where
  "signature_item fr entry =
     exn_bind (py_get entry ''signature'' JNull) (\<lambda>sig.
     exn_bind (py_get entry ''blockTime'' JNull) (\<lambda>bt.
     exn_bind (iso_time_from_blocktime bt) (\<lambda>t.
     exn_bind (py_get entry ''confirmationStatus'' JNull) (\<lambda>status.
     exn_bind (py_get entry ''err'' JNull) (\<lambda>e.
       Inr \<lparr>signature = sig, block_time = t, confirmation_status = status,
            err = err_summary fr e\<rparr>)))))"

fun signature_loop ::
  "(rat \<Rightarrow> string) \<Rightarrow> json list \<Rightarrow> tx_summary list \<Rightarrow> py_exn + tx_summary list" where
  "signature_loop fr [] items = Inr items"
| "signature_loop fr (entry # rest) items =
     (case signature_item fr entry of
        Inl exc \<Rightarrow> Inl exc
      | Inr summary \<Rightarrow> signature_loop fr rest (items @ [summary]))"

text \<open>Lines 191 to 201: the decoding of the raw result.\<close>

definition signatures_of_result :: "(rat \<Rightarrow> string) \<Rightarrow> json \<Rightarrow> py_exn + tx_summary list" where
  "signatures_of_result fr result = exn_bind (py_iter result) (\<lambda>entries. signature_loop fr entries [])"

definition get_signatures ::
  "(rat \<Rightarrow> string) \<Rightarrow> world \<Rightarrow> RPCClient \<Rightarrow> string \<Rightarrow> int \<Rightarrow> string \<Rightarrow> event list \<Rightarrow>
   (py_exn + tx_summary list) \<times> event list" where
  "get_signatures fr w client address limit commitment tr =
     (case request fr w client ''getSignaturesForAddress''
             [JStr address, JObj [(''limit'', JInt limit), (''commitment'', JStr commitment)]] tr of
        (Inl exc, tr') \<Rightarrow> (Inl exc, tr')
      | (Inr result, tr') \<Rightarrow> (signatures_of_result fr result, tr'))"

section \<open>The run\<close>

text \<open>
  The parsed command line (\<open>parse_args\<close> is the argument parser's work), and what a run
  leaves behind: its line on standard error, or the call of one of the two printing functions
  with the finished report. How a report is rendered is not modelled.
\<close>

record args =
  arg_address :: string
  arg_rpc :: "string list option"
  arg_limit :: int
  arg_timeout :: rat
  arg_commitment :: string
  arg_json :: bool
  arg_no_tokens :: bool
  arg_no_txs :: bool

datatype out_event =
    Stderr string
  | PrintJson string int "token_holding list" "tx_summary list"
  | PrintHuman string int "token_holding list" "tx_summary list"

datatype outcome = Exit int | Uncaught py_exn

definition DEFAULT_ENDPOINTS :: "string list" where
  "DEFAULT_ENDPOINTS = [''https://api.mainnet-beta.solana.com'', ''https://solana.drpc.org'']"

text \<open>Lines 305 and 306: the client of a run.\<close>

definition client_of :: "args \<Rightarrow> RPCClient" where
  "client_of a =
     \<lparr>endpoints = (case arg_rpc a of
                     None \<Rightarrow> DEFAULT_ENDPOINTS
                   | Some eps \<Rightarrow> if eps \<noteq> [] then eps else DEFAULT_ENDPOINTS),
      timeout = arg_timeout a\<rparr>"

text \<open>The two optional queries of the \<open>try\<close> block, skipped when the flag says so.\<close>

definition tokens_step ::
  "(rat \<Rightarrow> string) \<Rightarrow> world \<Rightarrow> args \<Rightarrow> event list \<Rightarrow> (py_exn + token_holding list) \<times> event list" where
  "tokens_step fr w a tr =
     (if \<not> arg_no_tokens a then get_tokens fr w (client_of a) (arg_address a) (arg_commitment a) tr
      else (Inr [], tr))"

definition txs_step ::
  "(rat \<Rightarrow> string) \<Rightarrow> world \<Rightarrow> args \<Rightarrow> event list \<Rightarrow> (py_exn + tx_summary list) \<times> event list" where
  "txs_step fr w a tr =
     (if \<not> arg_no_txs a then
        get_signatures fr w (client_of a) (arg_address a) (arg_limit a) (arg_commitment a) tr
      else (Inr [], tr))"

definition rpc_error_line :: "py_exn \<Rightarrow> out_event" where
  "rpc_error_line exc = Stderr (''RPC error: '' @ exn_str exc)"

text \<open>\<open>run\<close>: the outcome, what was written, and the trace of the network.\<close>

definition run :: "(rat \<Rightarrow> string) \<Rightarrow> world \<Rightarrow> args \<Rightarrow> outcome \<times> out_event list \<times> event list" where
  "run fr w a =
     (case validate_address (arg_address a) of
        Inl (ValueError m) \<Rightarrow> (Exit 2, [Stderr m], [])
      | Inl exc \<Rightarrow> (Uncaught exc, [], [])
      | Inr u \<Rightarrow>
          (case get_balance fr w (client_of a) (arg_address a) (arg_commitment a) [] of
             (Inl exc, tr1) \<Rightarrow> (Exit 1, [rpc_error_line exc], tr1)
           | (Inr sol_lamports, tr1) \<Rightarrow>
               (case tokens_step fr w a tr1 of
                  (Inl exc, tr2) \<Rightarrow> (Exit 1, [rpc_error_line exc], tr2)
                | (Inr tokens, tr2) \<Rightarrow>
                    (case txs_step fr w a tr2 of
                       (Inl exc, tr3) \<Rightarrow> (Exit 1, [rpc_error_line exc], tr3)
                     | (Inr transactions, tr3) \<Rightarrow>
                         (Exit 0,
                          [if arg_json a
                           then PrintJson (arg_address a) sol_lamports tokens transactions
                           else PrintHuman (arg_address a) sol_lamports tokens transactions],
                          tr3)))))"

lemma post_in_full_schedule:
  "Post ep p t \<in> set (full_schedule eps p' t') \<Longrightarrow> p = p'"
  by (induction eps) (auto simp: ep_schedule_def)

lemma request_trace_subset:
  "set (snd (request fr w c m ps tr)) \<subseteq> set tr \<union> set (request_schedule c m ps)"
proof -
  from request_cases [OF refl, of c fr w m ps tr]
  consider j where "snd (request fr w c m ps tr) =
        tr @ take (7 * (j div 4) + 2 * (j mod 4) + 1) (request_schedule c m ps)"
    | "snd (request fr w c m ps tr) = tr @ request_schedule c m ps"
    by fastforce
  then show ?thesis
  proof cases
    case 1
    then show ?thesis using set_take_subset by fastforce
  next
    case 2
    then show ?thesis by simp
  qed
qed

lemma request_posts_payload:
  assumes "Post ep p t \<in> set (snd (request fr w c m ps tr))" and "Post ep p t \<notin> set tr"
  shows "p = rpc_payload m ps"
proof -
  from assms request_trace_subset [of fr w c m ps tr]
  have "Post ep p t \<in> set (request_schedule c m ps)" by blast
  then show ?thesis by (auto simp: request_schedule_def dest: post_in_full_schedule)
qed

lemma rpc_payload_method: "rpc_payload m ps = rpc_payload m' ps' \<Longrightarrow> m = m'"
  by (simp add: rpc_payload_def)

lemma get_balance_trace:
  assumes "get_balance fr w c addr cm [] = (res, tr)" and "Post ep p t \<in> set tr"
  shows "p = rpc_payload ''getBalance'' [JStr addr, JObj [(''commitment'', JStr cm)]]"
proof -
  let ?ps = "[JStr addr, JObj [(''commitment'', JStr cm)]]"
  have "tr = snd (request fr w c ''getBalance'' ?ps [])"
    using assms(1) by (auto simp: get_balance_def split: prod.splits sum.splits)
  with assms(2) show ?thesis
    using request_posts_payload [of ep p t fr w c "''getBalance''" ?ps "[]"] by simp
qed


lemma request_first_ok:
  assumes "endpoints c = ep # eps"
    and "request_try fr w (n_posts tr) ep (rpc_payload m ps) (timeout c) = Inr r"
  shows "request fr w c m ps tr = (Inr r, tr @ [Post ep (rpc_payload m ps) (timeout c)])"
proof -
  have "attempt_loop fr w ep (rpc_payload m ps) (timeout c) [0..<length backoffs + 1] (None, tr) =
        (Some r, None, tr @ take 1 (ep_schedule ep (rpc_payload m ps) (timeout c)))"
    by (subst attempt_loop_unfold) (simp add: assms(2))
  then show ?thesis
    by (simp add: request_def assms(1) ep_schedule_def del: upt_Suc)
qed

lemma request_all_isl:
  assumes "endpoints c \<noteq> []"
    and "\<forall>i<4 * length (endpoints c). isl (attempt_outcome fr w c m ps (n_posts tr) i)"
  shows "request fr w c m ps tr =
     (Inl (RPCError (all_failed_msg
        (Some (projl (attempt_outcome fr w c m ps (n_posts tr) (4 * length (endpoints c) - 1)))))),
      tr @ request_schedule c m ps)"
proof -
  from request_cases [OF refl, of c fr w m ps tr] show ?thesis
  proof (elim disjE exE conjE)
    fix j r
    assume "j < 4 * length (endpoints c)" "attempt_outcome fr w c m ps (n_posts tr) j = Inr r"
    with assms(2) show ?thesis by fastforce
  next
    assume "request fr w c m ps tr =
      (Inl (RPCError (all_failed_msg (if endpoints c = [] then None
         else Some (projl (attempt_outcome fr w c m ps (n_posts tr) (4 * length (endpoints c) - 1)))))),
       tr @ request_schedule c m ps)"
    with assms(1) show ?thesis by simp
  qed
qed

text \<open>
  A run with the default settings for the address of 32 zero bytes, and a network that
  answers the balance request and refuses every other one.
\<close>

definition demo_args :: args where
  "demo_args =
     \<lparr>arg_address = ''11111111111111111111111111111111'', arg_rpc = None, arg_limit = 10,
      arg_timeout = 10, arg_commitment = ''confirmed'', arg_json = False, arg_no_tokens = False,
      arg_no_txs = False\<rparr>"

definition balance_only_world :: world where
  "balance_only_world k endpoint payload tmo =
     (if payload = rpc_payload ''getBalance''
          [JStr ''11111111111111111111111111111111'', JObj [(''commitment'', JStr ''confirmed'')]]
      then ok_response (JObj [(''jsonrpc'', JStr ''2.0''),
                              (''result'', JObj [(''context'', JObj [(''slot'', JInt 1)]),
                                                 (''value'', JInt 5000000000)]),
                              (''id'', JInt 1)])
      else Responds \<lparr>status_code = 503, resp_text = ''busy'', json_body = None\<rparr>)"

lemma validate_demo_address: "validate_address (arg_address demo_args) = Inr ()"
proof -
  let ?s = "''11111111111111111111111111111111''"
  have "base58_decode ?s = Inr (spec_decode ?s)"
    by (rule base58_decode_ok) (simp_all add: BASE58_ALPHABET_def)
  moreover have "length (spec_decode ?s) = 32"
    by (simp add: spec_decode_def b58_digit_def BASE58_ALPHABET_def min_bytes_0)
  ultimately show ?thesis by (simp add: validate_address_def demo_args_def)
qed

lemma dead_world_outcome:
  "attempt_outcome fr dead_world c m ps k i =
     Inl (RPCError (''HTTP 503 from '' @ (endpoints c ! (i div 4)) @ '': busy''))"
  by (simp add: attempt_outcome_def request_try_def dead_world_def str_int_503)

lemma demo_balance_dead:
  "get_balance demo_fr dead_world (client_of demo_args) (arg_address demo_args)
     (arg_commitment demo_args) [] =
   (Inl (RPCError ''All RPC endpoints failed: HTTP 503 from https://solana.drpc.org: busy''),
    request_schedule (client_of demo_args) ''getBalance''
      [JStr (arg_address demo_args), JObj [(''commitment'', JStr (arg_commitment demo_args))]])"
proof -
  let ?c = "client_of demo_args"
  let ?ps = "[JStr (arg_address demo_args), JObj [(''commitment'', JStr (arg_commitment demo_args))]]"
  have eps: "endpoints ?c = [''https://api.mainnet-beta.solana.com'', ''https://solana.drpc.org'']"
    by (simp add: client_of_def demo_args_def DEFAULT_ENDPOINTS_def)
  have ne: "endpoints ?c \<noteq> []" by (simp add: eps)
  have all: "\<forall>i<4 * length (endpoints ?c).
      isl (attempt_outcome demo_fr dead_world ?c ''getBalance'' ?ps (n_posts []) i)"
    by (simp add: dead_world_outcome)
  have "request demo_fr dead_world ?c ''getBalance'' ?ps [] =
     (Inl (RPCError (all_failed_msg (Some (projl
        (attempt_outcome demo_fr dead_world ?c ''getBalance'' ?ps (n_posts [])
           (4 * length (endpoints ?c) - 1)))))),
      [] @ request_schedule ?c ''getBalance'' ?ps)"
    by (rule request_all_isl [OF ne all])
  then have "request demo_fr dead_world ?c ''getBalance'' ?ps [] =
     (Inl (RPCError ''All RPC endpoints failed: HTTP 503 from https://solana.drpc.org: busy''),
      request_schedule ?c ''getBalance'' ?ps)"
    by (simp add: dead_world_outcome all_failed_msg_def eps)
  then show ?thesis by (simp add: get_balance_def)
qed

text \<open>
  C8. Once the address is valid: if the balance query raises, the run exits with code 1, its
  only output is the error line, and its trace is that of the balance query, which holds no
  POST of a token-accounts or signatures request; if the balance query returns and the tokens
  query or the signatures query raises, the run exits with code 1 all the same and its only
  output is the error line. In none of these runs is a printing function called.
\<close>

theorem run_aborts_on_query_failure:
  assumes "validate_address (arg_address a) = Inr ()"
  shows
   "(\<forall>exc tr.
       get_balance fr w (client_of a) (arg_address a) (arg_commitment a) [] = (Inl exc, tr) \<longrightarrow>
       run fr w a = (Exit 1, [Stderr (''RPC error: '' @ exn_str exc)], tr) \<and>
       (\<forall>ep ps t. Post ep (rpc_payload ''getTokenAccountsByOwner'' ps) t \<notin> set tr \<and>
                  Post ep (rpc_payload ''getSignaturesForAddress'' ps) t \<notin> set tr)) \<and>
    (\<forall>sol tr1 exc tr2.
       get_balance fr w (client_of a) (arg_address a) (arg_commitment a) [] = (Inr sol, tr1) \<and>
       tokens_step fr w a tr1 = (Inl exc, tr2) \<longrightarrow>
       run fr w a = (Exit 1, [Stderr (''RPC error: '' @ exn_str exc)], tr2)) \<and>
    (\<forall>sol tr1 tokens tr2 exc tr3.
       get_balance fr w (client_of a) (arg_address a) (arg_commitment a) [] = (Inr sol, tr1) \<and>
       tokens_step fr w a tr1 = (Inr tokens, tr2) \<and>
       txs_step fr w a tr2 = (Inl exc, tr3) \<longrightarrow>
       run fr w a = (Exit 1, [Stderr (''RPC error: '' @ exn_str exc)], tr3))"
proof (intro conjI allI impI)
  fix exc tr
  assume b: "get_balance fr w (client_of a) (arg_address a) (arg_commitment a) [] = (Inl exc, tr)"
  show "run fr w a = (Exit 1, [Stderr (''RPC error: '' @ exn_str exc)], tr)"
    using assms b by (simp add: run_def rpc_error_line_def)
  fix ep ps t
  show "Post ep (rpc_payload ''getTokenAccountsByOwner'' ps) t \<notin> set tr"
  proof
    assume "Post ep (rpc_payload ''getTokenAccountsByOwner'' ps) t \<in> set tr"
    from get_balance_trace [OF b this] have "''getTokenAccountsByOwner'' = ''getBalance''"
      by (rule rpc_payload_method)
    then show False by simp
  qed
  show "Post ep (rpc_payload ''getSignaturesForAddress'' ps) t \<notin> set tr"
  proof
    assume "Post ep (rpc_payload ''getSignaturesForAddress'' ps) t \<in> set tr"
    from get_balance_trace [OF b this] have "''getSignaturesForAddress'' = ''getBalance''"
      by (rule rpc_payload_method)
    then show False by simp
  qed
next
  fix sol tr1 exc tr2
  assume "get_balance fr w (client_of a) (arg_address a) (arg_commitment a) [] = (Inr sol, tr1) \<and>
       tokens_step fr w a tr1 = (Inl exc, tr2)"
  then show "run fr w a = (Exit 1, [Stderr (''RPC error: '' @ exn_str exc)], tr2)"
    using assms by (simp add: run_def rpc_error_line_def)
next
  fix sol tr1 tokens tr2 exc tr3
  assume "get_balance fr w (client_of a) (arg_address a) (arg_commitment a) [] = (Inr sol, tr1) \<and>
       tokens_step fr w a tr1 = (Inr tokens, tr2) \<and>
       txs_step fr w a tr2 = (Inl exc, tr3)"
  then show "run fr w a = (Exit 1, [Stderr (''RPC error: '' @ exn_str exc)], tr3)"
    using assms by (simp add: run_def rpc_error_line_def)
qed


lemma demo_balance_ok:
  "get_balance demo_fr balance_only_world (client_of demo_args) (arg_address demo_args)
     (arg_commitment demo_args) [] =
   (Inr 5000000000,
    [Post ''https://api.mainnet-beta.solana.com''
       (rpc_payload ''getBalance''
          [JStr ''11111111111111111111111111111111'', JObj [(''commitment'', JStr ''confirmed'')]])
       10])"
proof -
  let ?c = "client_of demo_args"
  let ?ps = "[JStr ''11111111111111111111111111111111'', JObj [(''commitment'', JStr ''confirmed'')]]"
  have eps: "endpoints ?c = ''https://api.mainnet-beta.solana.com'' # [''https://solana.drpc.org'']"
    by (simp add: client_of_def demo_args_def DEFAULT_ENDPOINTS_def)
  have t: "timeout ?c = 10" by (simp add: client_of_def demo_args_def)
  have ok: "request_try demo_fr balance_only_world (n_posts []) ''https://api.mainnet-beta.solana.com''
        (rpc_payload ''getBalance'' ?ps) (timeout ?c) =
      Inr (JObj [(''context'', JObj [(''slot'', JInt 1)]), (''value'', JInt 5000000000)])"
    by (simp add: request_try_def balance_only_world_def ok_response_def)
  have "request demo_fr balance_only_world ?c ''getBalance'' ?ps [] =
      (Inr (JObj [(''context'', JObj [(''slot'', JInt 1)]), (''value'', JInt 5000000000)]),
       [] @ [Post ''https://api.mainnet-beta.solana.com'' (rpc_payload ''getBalance'' ?ps) (timeout ?c)])"
    by (rule request_first_ok [OF eps ok])
  then have req: "request demo_fr balance_only_world ?c ''getBalance'' ?ps [] =
      (Inr (JObj [(''context'', JObj [(''slot'', JInt 1)]), (''value'', JInt 5000000000)]),
       [Post ''https://api.mainnet-beta.solana.com'' (rpc_payload ''getBalance'' ?ps) 10])"
    by (simp add: t)
  have addr: "arg_address demo_args = ''11111111111111111111111111111111''"
    "arg_commitment demo_args = ''confirmed''"
    by (simp_all add: demo_args_def)
  show ?thesis
    unfolding get_balance_def addr req
    by (simp add: balance_of_result_def exn_bind_def)
qed

lemma balance_only_world_outcome:
  assumes "m \<noteq> ''getBalance''"
  shows "attempt_outcome fr balance_only_world c m ps k i =
     Inl (RPCError (''HTTP 503 from '' @ (endpoints c ! (i div 4)) @ '': busy''))"
  using assms
  by (simp add: attempt_outcome_def request_try_def balance_only_world_def str_int_503
      rpc_payload_def)

lemma demo_tokens_fail:
  "\<exists>tr2. tokens_step demo_fr balance_only_world demo_args tr1 =
     (Inl (RPCError ''All RPC endpoints failed: HTTP 503 from https://solana.drpc.org: busy''), tr2)"
proof -
  let ?c = "client_of demo_args"
  let ?ps = "[JStr (arg_address demo_args), JObj [(''programId'', JStr TOKEN_PROGRAM_ID)],
       JObj [(''encoding'', JStr ''jsonParsed''), (''commitment'', JStr (arg_commitment demo_args))]]"
  have eps: "endpoints ?c = [''https://api.mainnet-beta.solana.com'', ''https://solana.drpc.org'']"
    by (simp add: client_of_def demo_args_def DEFAULT_ENDPOINTS_def)
  have ne: "endpoints ?c \<noteq> []" by (simp add: eps)
  have m: "''getTokenAccountsByOwner'' \<noteq> ''getBalance''" by simp
  have all: "\<forall>i<4 * length (endpoints ?c).
      isl (attempt_outcome demo_fr balance_only_world ?c ''getTokenAccountsByOwner'' ?ps (n_posts tr1) i)"
    by (simp add: balance_only_world_outcome [OF m])
  have "request demo_fr balance_only_world ?c ''getTokenAccountsByOwner'' ?ps tr1 =
     (Inl (RPCError (all_failed_msg (Some (projl
        (attempt_outcome demo_fr balance_only_world ?c ''getTokenAccountsByOwner'' ?ps (n_posts tr1)
           (4 * length (endpoints ?c) - 1)))))),
      tr1 @ request_schedule ?c ''getTokenAccountsByOwner'' ?ps)"
    by (rule request_all_isl [OF ne all])
  then have "request demo_fr balance_only_world ?c ''getTokenAccountsByOwner'' ?ps tr1 =
     (Inl (RPCError ''All RPC endpoints failed: HTTP 503 from https://solana.drpc.org: busy''),
      tr1 @ request_schedule ?c ''getTokenAccountsByOwner'' ?ps)"
    by (simp add: balance_only_world_outcome [OF m] all_failed_msg_def eps)
  then show ?thesis by (simp add: tokens_step_def get_tokens_def demo_args_def)
qed

theorem run_aborts_on_query_failure_witness:
  "validate_address (arg_address demo_args) = Inr () \<and>
   fst (run demo_fr dead_world demo_args) = Exit 1 \<and>
   fst (snd (run demo_fr dead_world demo_args)) =
     [Stderr ''RPC error: All RPC endpoints failed: HTTP 503 from https://solana.drpc.org: busy''] \<and>
   fst (run demo_fr balance_only_world demo_args) = Exit 1 \<and>
   fst (snd (run demo_fr balance_only_world demo_args)) =
     [Stderr ''RPC error: All RPC endpoints failed: HTTP 503 from https://solana.drpc.org: busy'']"
proof -
  note v = validate_demo_address
  have r1: "run demo_fr dead_world demo_args =
      (Exit 1,
       [Stderr (''RPC error: '' @ exn_str
          (RPCError ''All RPC endpoints failed: HTTP 503 from https://solana.drpc.org: busy''))],
       request_schedule (client_of demo_args) ''getBalance''
         [JStr (arg_address demo_args), JObj [(''commitment'', JStr (arg_commitment demo_args))]])"
    by (rule run_aborts_on_query_failure [OF v, THEN conjunct1, rule_format, OF demo_balance_dead,
          THEN conjunct1])
  from demo_tokens_fail obtain tr2 where
    t: "tokens_step demo_fr balance_only_world demo_args
          [Post ''https://api.mainnet-beta.solana.com''
             (rpc_payload ''getBalance''
                [JStr ''11111111111111111111111111111111'', JObj [(''commitment'', JStr ''confirmed'')]])
             10] =
        (Inl (RPCError ''All RPC endpoints failed: HTTP 503 from https://solana.drpc.org: busy''), tr2)"
    by blast
  have r2: "run demo_fr balance_only_world demo_args =
      (Exit 1,
       [Stderr (''RPC error: '' @ exn_str
          (RPCError ''All RPC endpoints failed: HTTP 503 from https://solana.drpc.org: busy''))],
       tr2)"
    by (rule run_aborts_on_query_failure [OF v, THEN conjunct2, THEN conjunct1, rule_format,
          OF conjI [OF demo_balance_ok t]])
  show ?thesis using v by (simp add: r1 r2)
qed

section \<open>The signature decoder\<close>

text \<open>
  A record whose block time the decoder can render: absent, null, or an integer number of
  seconds within the years 1 to 9999. The summary of such a record, as the specification
  words it.
\<close>

definition ok_block_time :: "json \<Rightarrow> bool" where
  "ok_block_time entry =
     (case field [''blockTime''] entry of
        JNull \<Rightarrow> True
      | JInt n \<Rightarrow> MIN_TIMESTAMP \<le> n \<and> n \<le> MAX_TIMESTAMP
      | _ \<Rightarrow> False)"

definition summary_of :: "(rat \<Rightarrow> string) \<Rightarrow> json \<Rightarrow> tx_summary" where
  "summary_of fr entry =
     \<lparr>signature = field [''signature''] entry,
      block_time = (case field [''blockTime''] entry of JInt n \<Rightarrow> isoformat_utc n 0 | _ \<Rightarrow> ''N/A''),
      confirmation_status = field [''confirmationStatus''] entry,
      err = (if field [''err''] entry = JNull then [] else json_dumps fr (field [''err''] entry))\<rparr>"

lemma signature_item_ok:
  assumes "is_obj entry" and "ok_block_time entry"
  shows "signature_item fr entry = Inr (summary_of fr entry)"
proof -
  from assms(1) obtain kvs where e: "entry = JObj kvs" by (cases entry) auto
  have g: "py_get entry k JNull = Inr (field [k] entry)" for k
    by (rule py_get_field [OF assms(1)])
  have t: "iso_time_from_blocktime (field [''blockTime''] entry) =
      Inr (case field [''blockTime''] entry of JInt n \<Rightarrow> isoformat_utc n 0 | _ \<Rightarrow> ''N/A'')"
    using assms(2)
    by (cases "field [''blockTime''] entry")
      (simp_all add: ok_block_time_def fromtimestamp_iso_def del: field.simps)
  show ?thesis
    unfolding signature_item_def
    by (simp add: g t exn_bind_def summary_of_def err_summary_def del: field.simps)
qed

lemma signature_loop_ok:
  assumes "\<forall>entry\<in>set entries. is_obj entry \<and> ok_block_time entry"
  shows "signature_loop fr entries items = Inr (items @ map (summary_of fr) entries)"
  using assms
proof (induction entries arbitrary: items)
  case Nil
  then show ?case by simp
next
  case (Cons entry rest)
  then have "signature_item fr entry = Inr (summary_of fr entry)"
    by (simp add: signature_item_ok)
  with Cons show ?case by simp
qed

lemma zfill_simps:
  "zfill 2 [a] = [CHR ''0'', a]" "zfill 2 [a, b] = [a, b]"
  "zfill 4 [a, b, c, d] = [a, b, c, d]" "zfill 4 [a] = [CHR ''0'', CHR ''0'', CHR ''0'', a]"
  by (simp_all add: zfill_def numeral_eq_Suc)

lemma civil_from_days_examples:
  "civil_from_days 0 = (1970, 1, 1)"
  "civil_from_days 19675 = (2023, 11, 14)"
  "civil_from_days (- 719162) = (1, 1, 1)"
  "civil_from_days 2932896 = (9999, 12, 31)"
  "civil_from_days 2932897 = (10000, 1, 1)"
  unfolding civil_from_days_def Let_def by simp_all

text \<open>The rendering at the epoch, at a recent block time and at both ends of the range.\<close>

lemma isoformat_utc_examples:
  "isoformat_utc 0 0 = ''1970-01-01T00:00:00+00:00''"
  "isoformat_utc 1700000000 0 = ''2023-11-14T22:13:20+00:00''"
  "isoformat_utc (- 62135596800) 0 = ''0001-01-01T00:00:00+00:00''"
  "isoformat_utc 253402300799 0 = ''9999-12-31T23:59:59+00:00''"
  by (simp_all add: isoformat_utc_def civil_from_days_examples str_int_def nat_digits.simps zfill_simps)


text \<open>Signature records: a confirmed one, a failed one without a block time, and one dated in the year 10000.\<close>

definition entry_ok :: json where
  "entry_ok =
     JObj [(''signature'', JStr ''5h6xBEauJ3PK6SWC''), (''slot'', JInt 229000000), (''err'', JNull),
           (''memo'', JNull), (''blockTime'', JInt 1700000000),
           (''confirmationStatus'', JStr ''finalized'')]"

definition entry_failed :: json where
  "entry_failed =
     JObj [(''signature'', JStr ''3AsdoALgZFuq2oUV''), (''slot'', JInt 229000001),
           (''err'', JObj [(''InstructionError'', JArr [JInt 0, JStr ''Custom''])]),
           (''blockTime'', JNull), (''confirmationStatus'', JStr ''confirmed'')]"

definition entry_year_10000 :: json where
  "entry_year_10000 =
     JObj [(''signature'', JStr ''2WE1b5g4EUsfihk9''), (''err'', JNull),
           (''blockTime'', JInt 253402300800), (''confirmationStatus'', JStr ''finalized'')]"

text \<open>
  C6 as stated fails: \<open>datetime\<close> holds the years 1 to 9999 only, and the source converts
  every integer block time without a check. A record dated one second after the year 9999
  makes the decoder raise, so no summary is produced for it nor for the records around it.
\<close>

theorem signatures_year_10000_counterexample:
  "field [''blockTime''] entry_year_10000 = JInt 253402300800 \<and>
   signatures_of_result demo_fr (JArr [entry_ok, entry_year_10000]) =
     Inl (ValueError ''year 10000 is out of range'')"
proof -
  have a: "signature_item demo_fr entry_ok = Inr (summary_of demo_fr entry_ok)"
    by (rule signature_item_ok)
      (simp_all add: entry_ok_def ok_block_time_def MIN_TIMESTAMP_def MAX_TIMESTAMP_def)
  have "fromtimestamp_iso 253402300800 0 = Inl (ValueError ''year 10000 is out of range'')"
    by (simp add: fromtimestamp_iso_def timestamp_error_def wrap_int32_def MIN_TIMESTAMP_def
        MAX_TIMESTAMP_def civil_from_days_examples str_int_def nat_digits.simps)
  then have b: "signature_item demo_fr entry_year_10000 =
      Inl (ValueError ''year 10000 is out of range'')"
    by (simp add: signature_item_def exn_bind_def entry_year_10000_def)
  have "signatures_of_result demo_fr (JArr [entry_ok, entry_year_10000]) =
     Inl (ValueError ''year 10000 is out of range'')"
    by (simp add: signatures_of_result_def exn_bind_def a b)
  then show ?thesis by (simp add: entry_year_10000_def)
qed

text \<open>
  C6, amended. For a sequence of signature records (objects) in which every block time is
  absent, null or an integer between -62135596800 and 253402300799 (the years 1 to 9999),
  the decoder produces exactly one summary per record, in input order: the signature and
  the confirmation status as they are (null when absent), the block time as
  \<open>YYYY-MM-DDTHH:MM:SS+00:00\<close> for an integer and as \<open>N/A\<close> when null or absent, and the error
  as the compact JSON text of a present non-null error field and as the empty string
  otherwise.
\<close>

theorem signatures_of_result_summaries:
  assumes "\<forall>entry\<in>set entries. is_obj entry \<and> ok_block_time entry"
  shows "signatures_of_result fr (JArr entries) = Inr (map (summary_of fr) entries)"
  using signature_loop_ok [OF assms, of fr "[]"]
  by (simp add: signatures_of_result_def exn_bind_def)

lemma json_dumps_instruction_error:
  "json_dumps demo_fr (JObj [(''InstructionError'', JArr [JInt 0, JStr ''Custom''])]) =
     [CHR ''{'', CHR 0x22] @ ''InstructionError'' @ [CHR 0x22] @ '':[0,'' @ [CHR 0x22] @ ''Custom'' @
     [CHR 0x22] @ '']}''"
  by (simp add: json_string_def json_escape_char_def str_int_def nat_digits.simps)

theorem signatures_of_result_summaries_witness:
  "is_obj entry_ok \<and> ok_block_time entry_ok \<and> is_obj entry_failed \<and> ok_block_time entry_failed \<and>
   (\<exists>rs. signatures_of_result demo_fr (JArr [entry_ok, entry_failed]) = Inr rs \<and>
      map signature rs = [JStr ''5h6xBEauJ3PK6SWC'', JStr ''3AsdoALgZFuq2oUV''] \<and>
      map block_time rs = [''2023-11-14T22:13:20+00:00'', ''N/A''] \<and>
      map err rs =
        [[], [CHR ''{'', CHR 0x22] @ ''InstructionError'' @ [CHR 0x22] @ '':[0,'' @ [CHR 0x22] @
             ''Custom'' @ [CHR 0x22] @ '']}''])"
proof -
  have o: "is_obj entry_ok" "is_obj entry_failed"
    by (simp_all add: entry_ok_def entry_failed_def)
  have b: "ok_block_time entry_ok" "ok_block_time entry_failed"
    by (simp_all add: entry_ok_def entry_failed_def ok_block_time_def MIN_TIMESTAMP_def
        MAX_TIMESTAMP_def)
  have hyp: "\<forall>entry\<in>set [entry_ok, entry_failed]. is_obj entry \<and> ok_block_time entry"
    using o b by simp
  have run: "signatures_of_result demo_fr (JArr [entry_ok, entry_failed]) =
      Inr (map (summary_of demo_fr) [entry_ok, entry_failed])"
    by (rule signatures_of_result_summaries [OF hyp])
  have s1: "map signature (map (summary_of demo_fr) [entry_ok, entry_failed]) =
      [JStr ''5h6xBEauJ3PK6SWC'', JStr ''3AsdoALgZFuq2oUV'']"
    by (simp add: summary_of_def entry_ok_def entry_failed_def)
  have s2: "map block_time (map (summary_of demo_fr) [entry_ok, entry_failed]) =
      [''2023-11-14T22:13:20+00:00'', ''N/A'']"
    by (simp add: summary_of_def entry_ok_def entry_failed_def isoformat_utc_examples)
  have s3: "map err (map (summary_of demo_fr) [entry_ok, entry_failed]) =
      [[], [CHR ''{'', CHR 0x22] @ ''InstructionError'' @ [CHR 0x22] @ '':[0,'' @ [CHR 0x22] @
           ''Custom'' @ [CHR 0x22] @ '']}'']"
    by (simp add: summary_of_def entry_ok_def entry_failed_def json_dumps_instruction_error
        del: json_dumps.simps)
  have ex: "\<exists>rs. signatures_of_result demo_fr (JArr [entry_ok, entry_failed]) = Inr rs \<and>
      map signature rs = [JStr ''5h6xBEauJ3PK6SWC'', JStr ''3AsdoALgZFuq2oUV''] \<and>
      map block_time rs = [''2023-11-14T22:13:20+00:00'', ''N/A''] \<and>
      map err rs =
        [[], [CHR ''{'', CHR 0x22] @ ''InstructionError'' @ [CHR 0x22] @ '':[0,'' @ [CHR 0x22] @
             ''Custom'' @ [CHR 0x22] @ '']}'']"
    by (rule exI [of _ "map (summary_of demo_fr) [entry_ok, entry_failed]"])
      (simp only: run s1 s2 s3 HOL.simp_thms)
  from o(1) b(1) o(2) b(2) ex show ?thesis by (intro conjI)
qed

end
